theory Spec2Isabelle
  imports
    Main
    "HOL-Library.Finite_Map"
    "HOL-Library.Char_ord"
    "HOL-Library.List_Lexorder"
    "HOL-Library.Word"
    "HOL-Library.Sublist"
begin

section \<open>Errors\<close>

text \<open>
  Go errors as values. \<open>Wrapped p e\<close> is \<^verbatim>\<open>fmt.Errorf(p + ": %w", e)\<close>, \<open>Errorf p\<close> a
  \<^verbatim>\<open>fmt.Errorf\<close> that wraps nothing. The two sentinels of the repository are
  \<open>ErrSessionClosed\<close> and \<open>ErrUnknownMessageType\<close>; the other constructors are the errors of
  the libraries the code calls (\<^verbatim>\<open>encoding/json\<close>, \<^verbatim>\<open>encoding/base64\<close>, \<^verbatim>\<open>context\<close>, the
  websocket transport and the recorder's encoder).
\<close>

datatype error =
    ErrSessionClosed
  | ErrUnknownMessageType
  | SyntaxError
  | UnmarshalTypeError
  | UnsupportedValueError
  | CorruptInputError
  | DeadlineExceeded
  | Canceled
  | TransportError string
  | EncoderError string
  | Errorf string
  | Wrapped string error

section \<open>Protocol data model\<close>

text \<open>
  Go strings are byte sequences: \<open>string\<close> (a list of 8-bit \<open>char\<close>) models both
  \<^verbatim>\<open>string\<close> and \<^verbatim>\<open>[]byte\<close>. \<^verbatim>\<open>MessageType\<close> and \<^verbatim>\<open>InputFormat\<close> are string types.
\<close>

type_synonym bytes = string
type_synonym MessageType = string
type_synonym InputFormat = string

definition MessageTypeStart :: MessageType where "MessageTypeStart = ''start''"
definition MessageTypeAck :: MessageType where "MessageTypeAck = ''ack''"
definition MessageTypeMediaInput :: MessageType where "MessageTypeMediaInput = ''media_input''"
definition MessageTypeDTMF :: MessageType where "MessageTypeDTMF = ''dtmf''"
definition MessageTypeCustom :: MessageType where "MessageTypeCustom = ''custom''"
definition MessageTypeMediaOutput :: MessageType where "MessageTypeMediaOutput = ''media_output''"
definition MessageTypeClear :: MessageType where "MessageTypeClear = ''clear''"

definition InputFormatPCM44100 :: InputFormat where "InputFormatPCM44100 = ''pcm_44100''"

text \<open>
  A \<^verbatim>\<open>float64\<close> is its 64 bits (IEEE 754 binary64). The code never computes with one, it
  only carries the numbers of a metadata object; the one distinction it meets is that
  \<^verbatim>\<open>json.Marshal\<close> rejects the infinities and the NaNs, whose eleven exponent bits are all
  set.
\<close>

datatype float64 = Float64 "64 word"

fun isFinite :: "float64 \<Rightarrow> bool" where
  "isFinite (Float64 w) = (take_bit 11 (drop_bit 52 w) \<noteq> (2047 :: 64 word))"

text \<open>
  The dynamic values (\<^verbatim>\<open>interface{}\<close>) a \<^verbatim>\<open>Metadata\<close> map holds. The first six
  constructors are the kinds \<^verbatim>\<open>json.Unmarshal\<close> produces (\<^verbatim>\<open>nil\<close>, \<^verbatim>\<open>bool\<close>, \<^verbatim>\<open>float64\<close>,
  \<^verbatim>\<open>string\<close>, \<^verbatim>\<open>[]interface{}\<close>, \<^verbatim>\<open>map[string]interface{}\<close>); \<open>AUnsupported\<close> stands for
  any value of a type \<^verbatim>\<open>json.Marshal\<close> rejects (a channel, a function). Values of other Go
  types are outside the model.
\<close>

datatype any =
    ANil
  | ABool bool
  | AFloat float64
  | AString string
  | ASlice "any list"
  | AMap "(string, any) fmap"
  | AUnsupported

text \<open>\<^verbatim>\<open>type Metadata map[string]interface{}\<close>; \<open>None\<close> is the nil map.\<close>

type_synonym Metadata = "(string, any) fmap option"

record StreamConfig =
  InputFormat :: InputFormat

record Media =
  Payload :: string

record StartMessage =
  start_Event :: MessageType
  start_StreamID :: string
  start_Config :: StreamConfig
  start_Metadata :: Metadata

record AckMessage =
  ack_Event :: MessageType
  ack_StreamID :: string
  ack_Config :: StreamConfig

record MediaInputMessage =
  media_input_Event :: MessageType
  media_input_StreamID :: string
  media_input_Media :: Media

record DTMFMessage =
  dtmf_Event :: MessageType
  dtmf_StreamID :: string
  dtmf_DTMF :: string

record CustomMessage =
  custom_Event :: MessageType
  custom_StreamID :: string
  custom_Metadata :: Metadata

record MediaOutputMessage =
  media_output_Event :: MessageType
  media_output_StreamID :: string
  media_output_Media :: Media

record ClearMessage =
  clear_Event :: MessageType
  clear_StreamID :: string

text \<open>The \<^verbatim>\<open>Message\<close> interface: one constructor per implementing struct.\<close>

datatype Message =
    Start StartMessage
  | Ack AckMessage
  | MediaInput MediaInputMessage
  | DTMF DTMFMessage
  | Custom CustomMessage
  | MediaOutput MediaOutputMessage
  | Clear ClearMessage

fun Type :: "Message \<Rightarrow> MessageType" where
  "Type (Start m) = MessageTypeStart"
| "Type (Ack m) = MessageTypeAck"
| "Type (MediaInput m) = MessageTypeMediaInput"
| "Type (DTMF m) = MessageTypeDTMF"
| "Type (Custom m) = MessageTypeCustom"
| "Type (MediaOutput m) = MessageTypeMediaOutput"
| "Type (Clear m) = MessageTypeClear"

section \<open>JSON (\<^verbatim>\<open>encoding/json\<close>)\<close>

text \<open>
  A JSON text as \<^verbatim>\<open>encoding/json\<close> reads it. An object keeps its members in wire order,
  duplicates included; a string is its unquoted content; a number token is the \<^verbatim>\<open>float64\<close>
  that \<^verbatim>\<open>strconv.ParseFloat\<close> reads from it, or \<open>None\<close> when the token is out of range.
\<close>

datatype json =
    JNull
  | JBool bool
  | JNum "float64 option"
  | JStr string
  | JArr "json list"
  | JObj "(string \<times> json) list"

text \<open>
  The bytes of a frame: \<open>None\<close> when they are not one well-formed JSON text (on which
  \<^verbatim>\<open>json.Unmarshal\<close> returns a \<^verbatim>\<open>SyntaxError\<close> before it stores anything), \<open>Some v\<close> when they
  are the text of \<open>v\<close>.
\<close>

type_synonym payload = "json option"

subsection \<open>Encoding\<close>

text \<open>
  \<^verbatim>\<open>json.Marshal\<close> writes the replacement character U+FFFD for every byte that does not
  start a well-formed UTF-8 sequence (\<^verbatim>\<open>utf8.DecodeRuneInString\<close> returning
  \<^verbatim>\<open>RuneError\<close> with width 1).
\<close>

definition cont :: "char \<Rightarrow> nat \<Rightarrow> nat \<Rightarrow> bool" where
  "cont c lo hi = (lo \<le> (of_char c :: nat) \<and> (of_char c :: nat) \<le> hi)"

definition runeError :: string where
  "runeError = [CHR 0xEF, CHR 0xBF, CHR 0xBD]"

text \<open>
  \<open>runeWidth s\<close> is the width of the well-formed sequence that starts \<open>s\<close>, or 0 when the
  first byte starts none.
\<close>

fun runeWidth :: "string \<Rightarrow> nat" where
  "runeWidth [] = 0"
| "runeWidth (c # cs) =
     (let b = (of_char c :: nat) in
      if b < 0x80 then 1
      else if 0xC2 \<le> b \<and> b \<le> 0xDF then
        (case cs of c1 # _ \<Rightarrow> if cont c1 0x80 0xBF then 2 else 0 | _ \<Rightarrow> 0)
      else if 0xE0 \<le> b \<and> b \<le> 0xEF then
        (case cs of
           c1 # c2 # _ \<Rightarrow>
             if cont c1 (if b = 0xE0 then 0xA0 else 0x80) (if b = 0xED then 0x9F else 0xBF)
                \<and> cont c2 0x80 0xBF
             then 3 else 0
         | _ \<Rightarrow> 0)
      else if 0xF0 \<le> b \<and> b \<le> 0xF4 then
        (case cs of
           c1 # c2 # c3 # _ \<Rightarrow>
             if cont c1 (if b = 0xF0 then 0x90 else 0x80) (if b = 0xF4 then 0x8F else 0xBF)
                \<and> cont c2 0x80 0xBF \<and> cont c3 0x80 0xBF
             then 4 else 0
         | _ \<Rightarrow> 0)
      else 0)"

function coerceUTF8 :: "string \<Rightarrow> string" where
  "coerceUTF8 [] = []"
| "coerceUTF8 (c # cs) =
     (if runeWidth (c # cs) = 0 then runeError @ coerceUTF8 cs
      else take (runeWidth (c # cs)) (c # cs) @ coerceUTF8 (drop (runeWidth (c # cs)) (c # cs)))"
  by pat_completeness auto
termination
  by (relation "measure length") auto

definition validUTF8 :: "string \<Rightarrow> bool" where
  "validUTF8 s = (coerceUTF8 s = s)"

text \<open>The first error of a list of results, or all the values.\<close>

fun collect :: "(error + 'a) list \<Rightarrow> error + 'a list" where
  "collect [] = Inr []"
| "collect (Inl e # rs) = Inl e"
| "collect (Inr x # rs) = (case collect rs of Inl e \<Rightarrow> Inl e | Inr xs \<Rightarrow> Inr (x # xs))"

text \<open>
  The members of a map, from the encodings of its values: keys in ascending byte order, as
  \<^verbatim>\<open>json.Marshal\<close> sorts them.
\<close>

definition encodeMembers :: "(string, error + json) fmap \<Rightarrow> error + (string \<times> json) list" where
  "encodeMembers em =
     collect (map (\<lambda>(k, r). case r of Inl e \<Rightarrow> Inl e | Inr v \<Rightarrow> Inr (coerceUTF8 k, v))
                  (sorted_list_of_fmap em))"

primrec encodeAny :: "any \<Rightarrow> error + json" where
  "encodeAny ANil = Inr JNull"
| "encodeAny (ABool b) = Inr (JBool b)"
| "encodeAny (AFloat x) = (if isFinite x then Inr (JNum (Some x)) else Inl UnsupportedValueError)"
| "encodeAny (AString s) = Inr (JStr (coerceUTF8 s))"
| "encodeAny (ASlice xs) =
     (case collect (map encodeAny xs) of Inl e \<Rightarrow> Inl e | Inr vs \<Rightarrow> Inr (JArr vs))"
| "encodeAny (AMap m) =
     (case encodeMembers (fmmap encodeAny m) of Inl e \<Rightarrow> Inl e | Inr kvs \<Rightarrow> Inr (JObj kvs))"
| "encodeAny AUnsupported = Inl UnsupportedValueError"

definition encodeMetadata :: "Metadata \<Rightarrow> error + json" where
  "encodeMetadata md =
     (case md of
        None \<Rightarrow> Inr JNull
      | Some m \<Rightarrow>
          (case encodeMembers (fmmap encodeAny m) of Inl e \<Rightarrow> Inl e | Inr kvs \<Rightarrow> Inr (JObj kvs)))"

definition encodeString :: "string \<Rightarrow> json" where
  "encodeString s = JStr (coerceUTF8 s)"

definition encodeStreamConfig :: "StreamConfig \<Rightarrow> json" where
  "encodeStreamConfig c = JObj [(''input_format'', encodeString (InputFormat c))]"

definition encodeMedia :: "Media \<Rightarrow> json" where
  "encodeMedia m = JObj [(''payload'', encodeString (Payload m))]"

text \<open>
  \<^verbatim>\<open>json.Marshal(m)\<close> for a \<^verbatim>\<open>Message\<close>, as the JSON value whose text it writes: the fields
  of the struct in declaration order, under their \<^verbatim>\<open>json\<close> tags. The discriminator written is
  the \<^verbatim>\<open>Event\<close> field, not \<^verbatim>\<open>m.Type()\<close>.
\<close>

fun Marshal :: "Message \<Rightarrow> error + json" where
  "Marshal (Start m) =
     (case encodeMetadata (start_Metadata m) of
        Inl e \<Rightarrow> Inl e
      | Inr md \<Rightarrow>
          Inr (JObj [(''event'', encodeString (start_Event m)),
                     (''stream_id'', encodeString (start_StreamID m)),
                     (''config'', encodeStreamConfig (start_Config m)),
                     (''metadata'', md)]))"
| "Marshal (Ack m) =
     Inr (JObj [(''event'', encodeString (ack_Event m)),
                (''stream_id'', encodeString (ack_StreamID m)),
                (''config'', encodeStreamConfig (ack_Config m))])"
| "Marshal (MediaInput m) =
     Inr (JObj [(''event'', encodeString (media_input_Event m)),
                (''stream_id'', encodeString (media_input_StreamID m)),
                (''media'', encodeMedia (media_input_Media m))])"
| "Marshal (DTMF m) =
     Inr (JObj [(''event'', encodeString (dtmf_Event m)),
                (''stream_id'', encodeString (dtmf_StreamID m)),
                (''dtmf'', encodeString (dtmf_DTMF m))])"
| "Marshal (Custom m) =
     (case encodeMetadata (custom_Metadata m) of
        Inl e \<Rightarrow> Inl e
      | Inr md \<Rightarrow>
          Inr (JObj [(''event'', encodeString (custom_Event m)),
                     (''stream_id'', encodeString (custom_StreamID m)),
                     (''metadata'', md)]))"
| "Marshal (MediaOutput m) =
     Inr (JObj [(''event'', encodeString (media_output_Event m)),
                (''stream_id'', encodeString (media_output_StreamID m)),
                (''media'', encodeMedia (media_output_Media m))])"
| "Marshal (Clear m) =
     Inr (JObj [(''event'', encodeString (clear_Event m)),
                (''stream_id'', encodeString (clear_StreamID m))])"

subsection \<open>Decoding\<close>

text \<open>
  A member's key selects the struct field with exactly that name or, failing that, the
  field whose name equals it under \<^verbatim>\<open>foldName\<close>. \<^verbatim>\<open>foldName\<close> maps ASCII letters to upper
  case and every other rune to the least rune of its case-folding orbit; the only runes
  outside ASCII that fold to an ASCII letter are U+017F (to \<open>S\<close>) and U+212A (to \<open>K\<close>). The
  function below folds those and leaves the other bytes as they are, which agrees with
  \<^verbatim>\<open>foldName\<close> on every comparison with an ASCII field name.
\<close>

definition toUpper :: "char \<Rightarrow> char" where
  "toUpper c =
     (if (of_char (CHR ''a'') :: nat) \<le> of_char c \<and> (of_char c :: nat) \<le> of_char (CHR ''z'')
      then char_of ((of_char c :: nat) - 32) else c)"

fun foldName :: "string \<Rightarrow> string" where
  "foldName [] = []"
| "foldName (c # cs) =
     (if c = CHR 0xC5 \<and> take 1 cs = [CHR 0xBF] then CHR ''S'' # foldName (drop 1 cs)
      else if c = CHR 0xE2 \<and> take 2 cs = [CHR 0x84, CHR 0xAA] then CHR ''K'' # foldName (drop 2 cs)
      else toUpper c # foldName cs)"

definition fieldOf :: "string list \<Rightarrow> string \<Rightarrow> string option" where
  "fieldOf names key =
     (if key \<in> set names then Some key
      else find (\<lambda>name. foldName name = foldName key) names)"

text \<open>
  Decoding an object into a struct: each member in turn, stored into the field its key
  selects, skipped when it selects none. \<^verbatim>\<open>json.Unmarshal\<close> records the first
  \<^verbatim>\<open>UnmarshalTypeError\<close>, goes on decoding and returns that error at the end; since every
  caller here drops the struct when an error comes back, the model stops at the first one.
\<close>

fun decodeObject ::
  "string list \<Rightarrow> (string \<Rightarrow> json \<Rightarrow> 's \<Rightarrow> error + 's) \<Rightarrow> (string \<times> json) list \<Rightarrow> 's \<Rightarrow> error + 's"
where
  "decodeObject names store [] s = Inr s"
| "decodeObject names store ((key, v) # kvs) s =
     (case fieldOf names key of
        None \<Rightarrow> decodeObject names store kvs s
      | Some f \<Rightarrow>
          (case store f v s of
             Inl e \<Rightarrow> Inl e
           | Inr s' \<Rightarrow> decodeObject names store kvs s'))"

text \<open>Into a struct: \<^verbatim>\<open>null\<close> leaves it alone, an object fills it, anything else is an error.\<close>

definition decodeStruct ::
  "string list \<Rightarrow> (string \<Rightarrow> json \<Rightarrow> 's \<Rightarrow> error + 's) \<Rightarrow> json \<Rightarrow> 's \<Rightarrow> error + 's"
where
  "decodeStruct names store v s =
     (case v of
        JNull \<Rightarrow> Inr s
      | JObj kvs \<Rightarrow> decodeObject names store kvs s
      | _ \<Rightarrow> Inl UnmarshalTypeError)"

text \<open>Into a string: \<^verbatim>\<open>null\<close> leaves it alone, a string replaces it.\<close>

definition decodeString :: "json \<Rightarrow> string \<Rightarrow> error + string" where
  "decodeString v cur =
     (case v of
        JNull \<Rightarrow> Inr cur
      | JStr s \<Rightarrow> Inr s
      | _ \<Rightarrow> Inl UnmarshalTypeError)"

text \<open>
  Into an \<^verbatim>\<open>interface{}\<close>: numbers become \<^verbatim>\<open>float64\<close> (an error when out of range), arrays
  \<^verbatim>\<open>[]interface{}\<close>, objects \<^verbatim>\<open>map[string]interface{}\<close> in which a later duplicate key wins.
\<close>

fun decodeAny :: "json \<Rightarrow> error + any"
  and decodeElems :: "json list \<Rightarrow> error + any list"
  and decodeMembers :: "(string \<times> json) list \<Rightarrow> (string, any) fmap \<Rightarrow> error + (string, any) fmap"
where
  "decodeAny JNull = Inr ANil"
| "decodeAny (JBool b) = Inr (ABool b)"
| "decodeAny (JNum None) = Inl UnmarshalTypeError"
| "decodeAny (JNum (Some x)) = Inr (AFloat x)"
| "decodeAny (JStr s) = Inr (AString s)"
| "decodeAny (JArr vs) = (case decodeElems vs of Inl e \<Rightarrow> Inl e | Inr xs \<Rightarrow> Inr (ASlice xs))"
| "decodeAny (JObj kvs) =
     (case decodeMembers kvs fmempty of Inl e \<Rightarrow> Inl e | Inr m \<Rightarrow> Inr (AMap m))"
| "decodeElems [] = Inr []"
| "decodeElems (v # vs) =
     (case decodeAny v of
        Inl e \<Rightarrow> Inl e
      | Inr x \<Rightarrow> (case decodeElems vs of Inl e \<Rightarrow> Inl e | Inr xs \<Rightarrow> Inr (x # xs)))"
| "decodeMembers [] m = Inr m"
| "decodeMembers ((k, v) # kvs) m =
     (case decodeAny v of
        Inl e \<Rightarrow> Inl e
      | Inr x \<Rightarrow> decodeMembers kvs (fmupd k x m))"

text \<open>
  Into a \<^verbatim>\<open>Metadata\<close> map: \<^verbatim>\<open>null\<close> sets it to nil; an object is stored into the map already
  there, or into a new one when it is nil.
\<close>

definition decodeMetadata :: "json \<Rightarrow> Metadata \<Rightarrow> error + Metadata" where
  "decodeMetadata v cur =
     (case v of
        JNull \<Rightarrow> Inr None
      | JObj kvs \<Rightarrow>
          (case decodeMembers kvs (case cur of None \<Rightarrow> fmempty | Some m \<Rightarrow> m) of
             Inl e \<Rightarrow> Inl e
           | Inr m \<Rightarrow> Inr (Some m))
      | _ \<Rightarrow> Inl UnmarshalTypeError)"

definition storeStreamConfig :: "string \<Rightarrow> json \<Rightarrow> StreamConfig \<Rightarrow> error + StreamConfig" where
  "storeStreamConfig f v c =
     (case decodeString v (InputFormat c) of Inl e \<Rightarrow> Inl e | Inr s \<Rightarrow> Inr (c\<lparr>InputFormat := s\<rparr>))"

definition decodeStreamConfig :: "json \<Rightarrow> StreamConfig \<Rightarrow> error + StreamConfig" where
  "decodeStreamConfig = decodeStruct [''input_format''] storeStreamConfig"

definition storeMedia :: "string \<Rightarrow> json \<Rightarrow> Media \<Rightarrow> error + Media" where
  "storeMedia f v m =
     (case decodeString v (Payload m) of Inl e \<Rightarrow> Inl e | Inr s \<Rightarrow> Inr (m\<lparr>Payload := s\<rparr>))"

definition decodeMedia :: "json \<Rightarrow> Media \<Rightarrow> error + Media" where
  "decodeMedia = decodeStruct [''payload''] storeMedia"

text \<open>One store function per struct: the field \<open>f\<close> receives the value \<open>v\<close>.\<close>

definition storeAck :: "string \<Rightarrow> json \<Rightarrow> AckMessage \<Rightarrow> error + AckMessage" where
  "storeAck f v m =
     (if f = ''event'' then
        (case decodeString v (ack_Event m) of Inl e \<Rightarrow> Inl e | Inr s \<Rightarrow> Inr (m\<lparr>ack_Event := s\<rparr>))
      else if f = ''stream_id'' then
        (case decodeString v (ack_StreamID m) of Inl e \<Rightarrow> Inl e | Inr s \<Rightarrow> Inr (m\<lparr>ack_StreamID := s\<rparr>))
      else
        (case decodeStreamConfig v (ack_Config m) of Inl e \<Rightarrow> Inl e | Inr c \<Rightarrow> Inr (m\<lparr>ack_Config := c\<rparr>)))"

definition storeMediaOutput ::
  "string \<Rightarrow> json \<Rightarrow> MediaOutputMessage \<Rightarrow> error + MediaOutputMessage"
where
  "storeMediaOutput f v m =
     (if f = ''event'' then
        (case decodeString v (media_output_Event m) of
           Inl e \<Rightarrow> Inl e | Inr s \<Rightarrow> Inr (m\<lparr>media_output_Event := s\<rparr>))
      else if f = ''stream_id'' then
        (case decodeString v (media_output_StreamID m) of
           Inl e \<Rightarrow> Inl e | Inr s \<Rightarrow> Inr (m\<lparr>media_output_StreamID := s\<rparr>))
      else
        (case decodeMedia v (media_output_Media m) of
           Inl e \<Rightarrow> Inl e | Inr c \<Rightarrow> Inr (m\<lparr>media_output_Media := c\<rparr>)))"

definition storeClear :: "string \<Rightarrow> json \<Rightarrow> ClearMessage \<Rightarrow> error + ClearMessage" where
  "storeClear f v m =
     (if f = ''event'' then
        (case decodeString v (clear_Event m) of Inl e \<Rightarrow> Inl e | Inr s \<Rightarrow> Inr (m\<lparr>clear_Event := s\<rparr>))
      else
        (case decodeString v (clear_StreamID m) of
           Inl e \<Rightarrow> Inl e | Inr s \<Rightarrow> Inr (m\<lparr>clear_StreamID := s\<rparr>)))"

definition storeDTMF :: "string \<Rightarrow> json \<Rightarrow> DTMFMessage \<Rightarrow> error + DTMFMessage" where
  "storeDTMF f v m =
     (if f = ''event'' then
        (case decodeString v (dtmf_Event m) of Inl e \<Rightarrow> Inl e | Inr s \<Rightarrow> Inr (m\<lparr>dtmf_Event := s\<rparr>))
      else if f = ''stream_id'' then
        (case decodeString v (dtmf_StreamID m) of
           Inl e \<Rightarrow> Inl e | Inr s \<Rightarrow> Inr (m\<lparr>dtmf_StreamID := s\<rparr>))
      else
        (case decodeString v (dtmf_DTMF m) of Inl e \<Rightarrow> Inl e | Inr s \<Rightarrow> Inr (m\<lparr>dtmf_DTMF := s\<rparr>)))"

definition storeCustom :: "string \<Rightarrow> json \<Rightarrow> CustomMessage \<Rightarrow> error + CustomMessage" where
  "storeCustom f v m =
     (if f = ''event'' then
        (case decodeString v (custom_Event m) of
           Inl e \<Rightarrow> Inl e | Inr s \<Rightarrow> Inr (m\<lparr>custom_Event := s\<rparr>))
      else if f = ''stream_id'' then
        (case decodeString v (custom_StreamID m) of
           Inl e \<Rightarrow> Inl e | Inr s \<Rightarrow> Inr (m\<lparr>custom_StreamID := s\<rparr>))
      else
        (case decodeMetadata v (custom_Metadata m) of
           Inl e \<Rightarrow> Inl e | Inr md \<Rightarrow> Inr (m\<lparr>custom_Metadata := md\<rparr>)))"

text \<open>The zero values \<^verbatim>\<open>&AckMessage{}\<close>, \<^verbatim>\<open>&MediaOutputMessage{}\<close>, ...\<close>

definition zeroStreamConfig :: StreamConfig where
  "zeroStreamConfig = \<lparr>InputFormat = []\<rparr>"

definition zeroMedia :: Media where
  "zeroMedia = \<lparr>Payload = []\<rparr>"

definition zeroAck :: AckMessage where
  "zeroAck = \<lparr>ack_Event = [], ack_StreamID = [], ack_Config = zeroStreamConfig\<rparr>"

definition zeroMediaOutput :: MediaOutputMessage where
  "zeroMediaOutput =
     \<lparr>media_output_Event = [], media_output_StreamID = [], media_output_Media = zeroMedia\<rparr>"

definition zeroClear :: ClearMessage where
  "zeroClear = \<lparr>clear_Event = [], clear_StreamID = []\<rparr>"

definition zeroDTMF :: DTMFMessage where
  "zeroDTMF = \<lparr>dtmf_Event = [], dtmf_StreamID = [], dtmf_DTMF = []\<rparr>"

definition zeroCustom :: CustomMessage where
  "zeroCustom = \<lparr>custom_Event = [], custom_StreamID = [], custom_Metadata = None\<rparr>"

text \<open>
  \<^verbatim>\<open>json.Unmarshal(data, &x)\<close> for a struct \<open>x\<close>: a syntax error before anything is stored,
  then the value into the struct.
\<close>

definition Unmarshal ::
  "string list \<Rightarrow> (string \<Rightarrow> json \<Rightarrow> 's \<Rightarrow> error + 's) \<Rightarrow> payload \<Rightarrow> 's \<Rightarrow> error + 's"
where
  "Unmarshal names store data s =
     (case data of
        None \<Rightarrow> Inl SyntaxError
      | Some v \<Rightarrow> decodeStruct names store v s)"

section \<open>Protocol codec (\<^verbatim>\<open>UnmarshalMessage\<close>)\<close>

text \<open>The first pass: \<^verbatim>\<open>var genericMsg struct { Event MessageType }\<close>.\<close>

definition storeGeneric :: "string \<Rightarrow> json \<Rightarrow> MessageType \<Rightarrow> error + MessageType" where
  "storeGeneric f v ev = decodeString v ev"

definition genericEvent :: "payload \<Rightarrow> error + MessageType" where
  "genericEvent data = Unmarshal [''event''] storeGeneric data []"

definition UnmarshalMessage :: "payload \<Rightarrow> error + Message" where
  "UnmarshalMessage data =
     (case genericEvent data of
        Inl err \<Rightarrow> Inl err
      | Inr ev \<Rightarrow>
          if ev = MessageTypeAck then
            (case Unmarshal [''event'', ''stream_id'', ''config''] storeAck data zeroAck of
               Inl err \<Rightarrow> Inl err | Inr m \<Rightarrow> Inr (Ack m))
          else if ev = MessageTypeMediaOutput then
            (case Unmarshal [''event'', ''stream_id'', ''media''] storeMediaOutput data
                    zeroMediaOutput of
               Inl err \<Rightarrow> Inl err | Inr m \<Rightarrow> Inr (MediaOutput m))
          else if ev = MessageTypeClear then
            (case Unmarshal [''event'', ''stream_id''] storeClear data zeroClear of
               Inl err \<Rightarrow> Inl err | Inr m \<Rightarrow> Inr (Clear m))
          else if ev = MessageTypeDTMF then
            (case Unmarshal [''event'', ''stream_id'', ''dtmf''] storeDTMF data zeroDTMF of
               Inl err \<Rightarrow> Inl err | Inr m \<Rightarrow> Inr (DTMF m))
          else if ev = MessageTypeCustom then
            (case Unmarshal [''event'', ''stream_id'', ''metadata''] storeCustom data zeroCustom of
               Inl err \<Rightarrow> Inl err | Inr m \<Rightarrow> Inr (Custom m))
          else Inl ErrUnknownMessageType)"

section \<open>Vocabulary for the properties of the codec\<close>

text \<open>The discriminators \<^verbatim>\<open>UnmarshalMessage\<close> has a case for, in the order of its switch.\<close>

definition dispatched :: "MessageType list" where
  "dispatched =
     [MessageTypeAck, MessageTypeMediaOutput, MessageTypeClear, MessageTypeDTMF, MessageTypeCustom]"








text \<open>A store function whose only error is \<^verbatim>\<open>UnmarshalTypeError\<close>.\<close>

definition typeErrors :: "(string \<Rightarrow> json \<Rightarrow> 's \<Rightarrow> error + 's) \<Rightarrow> bool" where
  "typeErrors store = (\<forall>f v s e. store f v s = Inl e \<longrightarrow> e = UnmarshalTypeError)"

text \<open>
  A dynamic value that survives the wire: built from the kinds \<^verbatim>\<open>json.Unmarshal\<close> produces,
  every number finite, every string and key well-formed UTF-8.
\<close>

primrec jsonNative :: "any \<Rightarrow> bool" where
  "jsonNative ANil = True"
| "jsonNative (ABool b) = True"
| "jsonNative (AFloat x) = isFinite x"
| "jsonNative (AString s) = validUTF8 s"
| "jsonNative (ASlice xs) = list_all (\<lambda>b. b) (map jsonNative xs)"
| "jsonNative (AMap m) = fmpred (\<lambda>k b. validUTF8 k \<and> b) (fmmap jsonNative m)"
| "jsonNative AUnsupported = False"

text \<open>A nil map, or a map of such values under well-formed keys.\<close>

definition cleanMetadata :: "Metadata \<Rightarrow> bool" where
  "cleanMetadata md =
     (case md of None \<Rightarrow> True | Some m \<Rightarrow> fmpred (\<lambda>k x. validUTF8 k \<and> jsonNative x) m)"

text \<open>
  A message as the program builds it: the \<^verbatim>\<open>Event\<close> field holds the variant's own tag, the
  strings are well-formed UTF-8, the metadata is clean.
\<close>

fun canonical :: "Message \<Rightarrow> bool" where
  "canonical (Start m) =
     (start_Event m = MessageTypeStart \<and> validUTF8 (start_StreamID m)
      \<and> validUTF8 (InputFormat (start_Config m)) \<and> cleanMetadata (start_Metadata m))"
| "canonical (Ack m) =
     (ack_Event m = MessageTypeAck \<and> validUTF8 (ack_StreamID m)
      \<and> validUTF8 (InputFormat (ack_Config m)))"
| "canonical (MediaInput m) =
     (media_input_Event m = MessageTypeMediaInput \<and> validUTF8 (media_input_StreamID m)
      \<and> validUTF8 (Payload (media_input_Media m)))"
| "canonical (DTMF m) =
     (dtmf_Event m = MessageTypeDTMF \<and> validUTF8 (dtmf_StreamID m) \<and> validUTF8 (dtmf_DTMF m))"
| "canonical (Custom m) =
     (custom_Event m = MessageTypeCustom \<and> validUTF8 (custom_StreamID m)
      \<and> cleanMetadata (custom_Metadata m))"
| "canonical (MediaOutput m) =
     (media_output_Event m = MessageTypeMediaOutput \<and> validUTF8 (media_output_StreamID m)
      \<and> validUTF8 (Payload (media_output_Media m)))"
| "canonical (Clear m) =
     (clear_Event m = MessageTypeClear \<and> validUTF8 (clear_StreamID m))"

text \<open>\<^verbatim>\<open>UnmarshalMessage\<close> on what \<^verbatim>\<open>json.Marshal\<close> wrote (the error of \<^verbatim>\<open>Marshal\<close> if it failed).\<close>

definition roundTrip :: "Message \<Rightarrow> error + Message" where
  "roundTrip m = (case Marshal m of Inl e \<Rightarrow> Inl e | Inr v \<Rightarrow> UnmarshalMessage (Some v))"

text \<open>One member of an encoded map, as \<open>encodeMembers\<close> builds it.\<close>

definition member :: "string \<times> (error + json) \<Rightarrow> error + string \<times> json" where
  "member = (\<lambda>(k, r). case r of Inl e \<Rightarrow> Inl e | Inr v \<Rightarrow> Inr (coerceUTF8 k, v))"

section \<open>Base64 (\<^verbatim>\<open>base64.StdEncoding\<close>)\<close>

definition encodeStd :: string where
  "encodeStd = ''ABCDEFGHIJKLMNOPQRSTUVWXYZabcdefghijklmnopqrstuvwxyz0123456789+/''"

definition enc64 :: "nat \<Rightarrow> char" where
  "enc64 i = encodeStd ! (i mod 64)"

fun index_of :: "char \<Rightarrow> string \<Rightarrow> nat option" where
  "index_of c [] = None"
| "index_of c (x # xs) = (if c = x then Some 0 else map_option Suc (index_of c xs))"

text \<open>The decode map: the position of a character in the alphabet, if it has one.\<close>

definition dec64 :: "char \<Rightarrow> nat option" where
  "dec64 c = index_of c encodeStd"

abbreviation byte_val :: "char \<Rightarrow> nat" where
  "byte_val c \<equiv> of_char c"

abbreviation byte_of :: "nat \<Rightarrow> char" where
  "byte_of n \<equiv> char_of n"

text \<open>
  \<^verbatim>\<open>EncodeToString\<close>: three bytes give four alphabet characters; a last group of one or two
  bytes is padded with \<open>=\<close>.
\<close>

fun EncodeToString :: "bytes \<Rightarrow> string" where
  "EncodeToString [] = []"
| "EncodeToString [a] =
     [enc64 (byte_val a div 4), enc64 ((byte_val a mod 4) * 16), CHR ''='', CHR ''='']"
| "EncodeToString [a, b] =
     [enc64 (byte_val a div 4),
      enc64 ((byte_val a mod 4) * 16 + byte_val b div 16),
      enc64 ((byte_val b mod 16) * 4), CHR ''='']"
| "EncodeToString (a # b # c # rest) =
     [enc64 (byte_val a div 4),
      enc64 ((byte_val a mod 4) * 16 + byte_val b div 16),
      enc64 ((byte_val b mod 16) * 4 + byte_val c div 64),
      enc64 (byte_val c mod 64)] @ EncodeToString rest"

text \<open>
  \<^verbatim>\<open>DecodeString\<close>. The decoder skips every carriage return and line feed, reads groups of
  four characters, accepts padding only in the last group (\<open>xx==\<close> or \<open>xxx=\<close>, nothing
  after it) and, not being in strict mode, ignores the unused low bits of a padded group.
  Anything else is a \<^verbatim>\<open>CorruptInputError\<close>.
\<close>

fun decodeQuanta :: "string \<Rightarrow> error + bytes" where
  "decodeQuanta [] = Inr []"
| "decodeQuanta (c0 # c1 # c2 # c3 # rest) =
     (case (dec64 c0, dec64 c1) of
        (Some s0, Some s1) \<Rightarrow>
          (case dec64 c2 of
             Some s2 \<Rightarrow>
               (case dec64 c3 of
                  Some s3 \<Rightarrow>
                    (case decodeQuanta rest of
                       Inl e \<Rightarrow> Inl e
                     | Inr bs \<Rightarrow>
                         Inr (byte_of (s0 * 4 + s1 div 16)
                              # byte_of ((s1 mod 16) * 16 + s2 div 4)
                              # byte_of ((s2 mod 4) * 64 + s3) # bs))
                | None \<Rightarrow>
                    if c3 = CHR ''='' \<and> rest = []
                    then Inr [byte_of (s0 * 4 + s1 div 16), byte_of ((s1 mod 16) * 16 + s2 div 4)]
                    else Inl CorruptInputError)
           | None \<Rightarrow>
               if c2 = CHR ''='' \<and> c3 = CHR ''='' \<and> rest = []
               then Inr [byte_of (s0 * 4 + s1 div 16)]
               else Inl CorruptInputError)
      | _ \<Rightarrow> Inl CorruptInputError)"
| "decodeQuanta _ = Inl CorruptInputError"

definition DecodeString :: "string \<Rightarrow> error + bytes" where
  "DecodeString s = decodeQuanta (filter (\<lambda>c. c \<noteq> CHR 0x0A \<and> c \<noteq> CHR 0x0D) s)"

section \<open>Audio chunker (\<^verbatim>\<open>sendAudioFile\<close>)\<close>

definition CHUNK_SIZE :: nat where
  "CHUNK_SIZE = 8820"

text \<open>
  What \<^verbatim>\<open>sendAudioFile\<close> does to its collaborators, in order: a write to the recorder's left
  channel, a message handed to \<^verbatim>\<open>session.Send\<close>, a pacing sleep (in milliseconds).
\<close>

datatype effect =
    WriteLeft bytes
  | SendMsg Message
  | Sleep nat

text \<open>
  The recorder and the session are collaborators: \<open>wl k\<close> is the result of the \<open>k\<close>-th
  call of \<^verbatim>\<open>recorder.WriteLeft\<close> and \<open>sd k\<close> that of the \<open>k\<close>-th \<^verbatim>\<open>session.Send\<close>
  (\<open>None\<close> is a nil error), counted from 0 within \<^verbatim>\<open>sendAudioFile\<close>.
\<close>

definition mediaMsg :: "string \<Rightarrow> bytes \<Rightarrow> Message" where
  "mediaMsg streamID chunk =
     MediaInput \<lparr>media_input_Event = MessageTypeMediaInput,
                 media_input_StreamID = streamID,
                 media_input_Media = \<lparr>Payload = EncodeToString chunk\<rparr>\<rparr>"

text \<open>
  The chunking loop:
  \<^verbatim>\<open>for offset := 0; offset < len(audioData); offset += CHUNK_SIZE\<close>.
  \<open>k\<close> counts the iterations done, \<open>tr\<close> is the trace so far.
\<close>

function chunkLoop ::
  "(nat \<Rightarrow> error option) \<Rightarrow> (nat \<Rightarrow> error option) \<Rightarrow> string \<Rightarrow> bytes \<Rightarrow> nat \<Rightarrow> nat \<Rightarrow>
   effect list \<Rightarrow> error option \<times> effect list"
where
  "chunkLoop wl sd streamID audioData offset k tr =
     (if offset < length audioData then
        (let end = min (offset + CHUNK_SIZE) (length audioData);
             chunk = take (end - offset) (drop offset audioData)
         in case wl k of
              Some e \<Rightarrow> (Some (Wrapped ''write audio error'' e), tr @ [WriteLeft chunk])
            | None \<Rightarrow>
                (case sd k of
                   Some e \<Rightarrow>
                     (Some (Wrapped ''send audio error'' e),
                      tr @ [WriteLeft chunk, SendMsg (mediaMsg streamID chunk)])
                 | None \<Rightarrow>
                     chunkLoop wl sd streamID audioData (offset + CHUNK_SIZE) (Suc k)
                       (tr @ [WriteLeft chunk, SendMsg (mediaMsg streamID chunk), Sleep 10])))
      else (None, tr))"
  by pat_completeness auto
termination
  by (relation "measure (\<lambda>(wl, sd, streamID, audioData, offset, k, tr). length audioData - offset)")
     (auto simp: CHUNK_SIZE_def)

declare chunkLoop.simps [simp del]

text \<open>
  The ten chunks of silence sent after the audio: \<^verbatim>\<open>for i := 0; i < 10; i++\<close>. The result
  of \<^verbatim>\<open>recorder.WriteLeft\<close> is dropped here, as in the source.
\<close>

fun silenceLoop ::
  "(nat \<Rightarrow> error option) \<Rightarrow> string \<Rightarrow> nat \<Rightarrow> nat \<Rightarrow> effect list \<Rightarrow> error option \<times> effect list"
where
  "silenceLoop sd streamID 0 k tr = (None, tr)"
| "silenceLoop sd streamID (Suc n) k tr =
     (let silenceChunk = replicate CHUNK_SIZE (CHR 0x00)
      in case sd k of
           Some e \<Rightarrow>
             (Some (Wrapped ''send silence error'' e),
              tr @ [WriteLeft silenceChunk, SendMsg (mediaMsg streamID silenceChunk)])
         | None \<Rightarrow>
             silenceLoop sd streamID n (Suc k)
               (tr @ [WriteLeft silenceChunk, SendMsg (mediaMsg streamID silenceChunk), Sleep 10]))"

text \<open>\<open>wav\<close> is the result of \<^verbatim>\<open>readWAVData(filename)\<close>.\<close>

definition sendAudioFile ::
  "(nat \<Rightarrow> error option) \<Rightarrow> (nat \<Rightarrow> error option) \<Rightarrow> string \<Rightarrow> error + bytes \<Rightarrow>
   error option \<times> effect list"
where
  "sendAudioFile wl sd streamID wav =
     (case wav of
        Inl e \<Rightarrow> (Some (Wrapped ''read WAV error'' e), [])
      | Inr audioData \<Rightarrow>
          (case chunkLoop wl sd streamID audioData 0 0 [] of
             (Some e, tr) \<Rightarrow> (Some e, tr)
           | (None, tr) \<Rightarrow>
               silenceLoop sd streamID 10 ((length audioData + CHUNK_SIZE - 1) div CHUNK_SIZE) tr))"

text \<open>A collaborator that never fails.\<close>

definition succeeds :: "nat \<Rightarrow> error option" where
  "succeeds k = None"

text \<open>The chunks recorded and the payloads sent, read off a trace.\<close>

fun recorded :: "effect list \<Rightarrow> bytes list" where
  "recorded [] = []"
| "recorded (WriteLeft c # tr) = c # recorded tr"
| "recorded (_ # tr) = recorded tr"

fun sentPayloads :: "effect list \<Rightarrow> string list" where
  "sentPayloads [] = []"
| "sentPayloads (SendMsg (MediaInput m) # tr) = Payload (media_input_Media m) # sentPayloads tr"
| "sentPayloads (_ # tr) = sentPayloads tr"

section \<open>Turn-taking controller (\<^verbatim>\<open>listenForResponses\<close>)\<close>

text \<open>
  Instants (\<^verbatim>\<open>time.Time\<close>) and durations (\<^verbatim>\<open>time.Duration\<close>) are counted in nanoseconds, as
  unbounded integers: a \<^verbatim>\<open>Duration\<close> is an \<^verbatim>\<open>int64\<close> and \<^verbatim>\<open>time.Since\<close> saturates at its
  bounds, some 292 years, which no run of the program comes near.
\<close>

type_synonym instant = int
type_synonym duration = int

definition Millisecond :: duration where "Millisecond = 1000000"
definition Second :: duration where "Second = 1000 * Millisecond"

definition silenceThreshold :: duration where "silenceThreshold = 2 * Second"
definition responseTimeout :: duration where "responseTimeout = 10 * Second"

text \<open>
  The local variables of \<^verbatim>\<open>listenForResponses\<close>, and the two channels it owns an end of:
  \<open>questionCompleteArmed\<close> is false once the local \<^verbatim>\<open>questionComplete\<close> has been set to nil,
  \<open>sendQuestionClosed\<close> is true once \<^verbatim>\<open>sendQuestion\<close> has been closed, \<open>signals\<close> counts the
  executions of \<^verbatim>\<open>close(sendQuestion)\<close>, and \<open>rightChannel\<close> is what has been written to the
  recorder's right channel.
\<close>

record turn =
  greetingComplete :: bool
  questionSent :: bool
  agentSpeaking :: bool
  lastAudioTime :: instant
  questionCompleteArmed :: bool
  sendQuestionClosed :: bool
  signals :: nat
  rightChannel :: "bytes list"

text \<open>The state at the first iteration; \<open>now\<close> is the \<^verbatim>\<open>time.Now()\<close> of the declaration.\<close>

definition initialTurn :: "instant \<Rightarrow> turn" where
  "initialTurn now =
     \<lparr>greetingComplete = False, questionSent = False, agentSpeaking = False,
      lastAudioTime = now, questionCompleteArmed = True, sendQuestionClosed = False,
      signals = 0, rightChannel = []\<rparr>"

text \<open>
  One event per iteration of the loop: the branch the \<^verbatim>\<open>select\<close> takes, with what the
  branch reads from outside.
  \<^item> \<open>Recv m now wr\<close>: \<open>m\<close> arrives on \<^verbatim>\<open>session.Messages()\<close>; \<open>now\<close> is the clock if the branch
    reads it, \<open>wr\<close> the result of \<^verbatim>\<open>recorder.WriteRight\<close> if the branch calls it.
  \<^item> \<open>MailboxClosed\<close>: the receive reports a closed channel.
  \<^item> \<open>QuestionComplete now\<close>: the receive from \<^verbatim>\<open>questionComplete\<close> fires.
  \<^item> \<open>Tick now\<close>: the 100 ms timer fires; \<open>now\<close> is the clock \<^verbatim>\<open>time.Since\<close> reads.
  \<^item> \<open>CtxDone err\<close>: the context is done, with \<^verbatim>\<open>ctx.Err()\<close> equal to \<open>err\<close>.
\<close>

datatype event =
    Recv Message instant "error option"
  | MailboxClosed
  | QuestionComplete instant
  | Tick instant
  | CtxDone error

text \<open>
  How the function ends. Both \<open>ResponseComplete\<close> and \<open>NoResponse\<close> return nil; they differ
  in the line logged before the return.
\<close>

datatype outcome =
    ResponseComplete
  | NoResponse
  | Failed error

fun returned :: "outcome \<Rightarrow> error option" where
  "returned ResponseComplete = None"
| "returned NoResponse = None"
| "returned (Failed err) = Some err"

datatype status =
    Running
  | Returned outcome
  | Panicked

text \<open>\<^verbatim>\<open>close(sendQuestion)\<close>: closing a closed channel panics.\<close>

definition closeSendQuestion :: "turn \<Rightarrow> status \<times> turn" where
  "closeSendQuestion s =
     (if sendQuestionClosed s then (Panicked, s\<lparr>signals := Suc (signals s)\<rparr>)
      else (Running, s\<lparr>sendQuestionClosed := True, signals := Suc (signals s)\<rparr>))"

text \<open>The three rules of the timer branch, in the order of the source.\<close>

definition onTick :: "instant \<Rightarrow> turn \<Rightarrow> status \<times> turn" where
  "onTick now s =
     (let elapsed = now - lastAudioTime s;
          (st, s1) =
            (if agentSpeaking s \<and> \<not> greetingComplete s \<and> elapsed > silenceThreshold
             then (case closeSendQuestion (s\<lparr>greetingComplete := True\<rparr>) of
                     (st, s') \<Rightarrow> (st, s'\<lparr>agentSpeaking := False\<rparr>))
             else (Running, s))
      in if st \<noteq> Running then (st, s1)
         else if greetingComplete s1 \<and> questionSent s1 \<and> agentSpeaking s1
                 \<and> elapsed > silenceThreshold
         then (Returned ResponseComplete, s1)
         else if greetingComplete s1 \<and> questionSent s1 \<and> \<not> agentSpeaking s1
                 \<and> elapsed > responseTimeout
         then (Returned NoResponse, s1)
         else (Running, s1))"

fun step :: "event \<Rightarrow> turn \<Rightarrow> status \<times> turn" where
  "step (Recv (MediaOutput m) now wr) s =
     (case DecodeString (Payload (media_output_Media m)) of
        Inl err \<Rightarrow> (Running, s)
      | Inr audioData \<Rightarrow>
          if length audioData > 0 then
            (case wr of
               Some err \<Rightarrow> (Returned (Failed (Wrapped ''write audio error'' err)), s)
             | None \<Rightarrow>
                 (Running, s\<lparr>rightChannel := rightChannel s @ [audioData],
                              agentSpeaking := True, lastAudioTime := now\<rparr>))
          else (Running, s))"
| "step (Recv m now wr) s = (Running, s)"
| "step MailboxClosed s = (Returned (Failed (Errorf ''message channel closed'')), s)"
| "step (QuestionComplete now) s =
     (if questionCompleteArmed s then
        (Running,
         (if \<not> questionSent s
          then s\<lparr>questionSent := True, agentSpeaking := False, lastAudioTime := now\<rparr>
          else s)\<lparr>questionCompleteArmed := False\<rparr>)
      else (Running, s))"
| "step (Tick now) s = onTick now s"
| "step (CtxDone err) s = (Returned (Failed err), s)"

text \<open>
  The loop over a sequence of events: it stops at the first event that makes the function
  return. \<open>Running\<close> at the end of the sequence is the loop waiting in its \<^verbatim>\<open>select\<close>.
\<close>

fun listenForResponses :: "turn \<Rightarrow> event list \<Rightarrow> status \<times> turn" where
  "listenForResponses s [] = (Running, s)"
| "listenForResponses s (e # es) =
     (case step e s of
        (Running, s') \<Rightarrow> listenForResponses s' es
      | (st, s') \<Rightarrow> (st, s'))"

text \<open>Vocabulary for the properties: the events that carry no agent audio and end nothing.\<close>

fun quiet :: "event \<Rightarrow> bool" where
  "quiet (Recv (MediaOutput m) now wr) = False"
| "quiet (Recv m now wr) = True"
| "quiet (QuestionComplete now) = True"
| "quiet (Tick now) = True"
| "quiet MailboxClosed = False"
| "quiet (CtxDone err) = False"

text \<open>The events that carry no MediaOutput message.\<close>

fun noMedia :: "event \<Rightarrow> bool" where
  "noMedia (Recv (MediaOutput m) now wr) = False"
| "noMedia e = True"

text \<open>A frame of agent audio: three bytes of PCM, base64-encoded.\<close>

definition agentMedia :: Message where
  "agentMedia =
     MediaOutput \<lparr>media_output_Event = MessageTypeMediaOutput, media_output_StreamID = ''s1'',
                  media_output_Media = \<lparr>Payload = ''AAAA''\<rparr>\<rparr>"

text \<open>
  The invariant of the loop: \<^verbatim>\<open>sendQuestion\<close> is closed exactly when the greeting is complete,
  and has been closed that many times.
\<close>

definition turnInv :: "turn \<Rightarrow> bool" where
  "turnInv s = (sendQuestionClosed s = greetingComplete s
                \<and> signals s = (if greetingComplete s then 1 else 0))"

text \<open>
  The state between the question being sent at \<open>sent\<close> and the agent's next audio.
\<close>

definition awaiting :: "instant \<Rightarrow> turn \<Rightarrow> bool" where
  "awaiting sent s = (greetingComplete s \<and> questionSent s \<and> \<not> agentSpeaking s
                      \<and> lastAudioTime s = sent)"

text \<open>A state in which the greeting is complete and the question is not yet sent.\<close>

definition greeted :: turn where
  "greeted = \<lparr>greetingComplete = True, questionSent = False, agentSpeaking = False,
      lastAudioTime = 500 * Millisecond, questionCompleteArmed = True, sendQuestionClosed = True,
      signals = 1, rightChannel = []\<rparr>"

text \<open>The state of the scripted run once its two frames of agent audio have arrived.\<close>

definition speaking :: turn where
  "speaking =
     \<lparr>greetingComplete = False, questionSent = False, agentSpeaking = True,
      lastAudioTime = 500 * Millisecond, questionCompleteArmed = True,
      sendQuestionClosed = False, signals = 0,
      rightChannel = [[CHR 0x00, CHR 0x00, CHR 0x00], [CHR 0x00, CHR 0x00, CHR 0x00]]\<rparr>"

section \<open>Session (\<^verbatim>\<open>session\<close>, its two loops and \<^verbatim>\<open>Close\<close>)\<close>

text \<open>
  A session is shared by four threads of control: the \<^verbatim>\<open>read\<close> goroutine, the \<^verbatim>\<open>ping\<close>
  goroutine, the caller of \<^verbatim>\<open>Close\<close>, and the consumer of \<^verbatim>\<open>Messages()\<close>. Each of the first
  three is at one of a few program points.

  \<open>RSelect\<close>: at the non-blocking \<^verbatim>\<open>select\<close> that opens an iteration of \<^verbatim>\<open>read\<close>.
  \<open>RRead\<close>: in \<^verbatim>\<open>s.conn.Read(ctx)\<close>. \<open>RQueue m\<close>: in the \<^verbatim>\<open>select\<close> that sends the decoded \<open>m\<close> to
  \<^verbatim>\<open>s.readCh\<close> or sees the context done. \<open>RExited\<close>: returned, deferred calls done.
\<close>

datatype readerPC =
    RSelect
  | RRead
  | RQueue Message
  | RExited

text \<open>
  \<open>PSelect\<close>: at the \<^verbatim>\<open>select\<close> of \<^verbatim>\<open>ping\<close>. \<open>PPing\<close>: in \<^verbatim>\<open>s.conn.Ping(ctx)\<close>. \<open>PExited\<close>:
  returned, deferred calls done.
\<close>

datatype pingerPC =
    PSelect
  | PPing
  | PExited

text \<open>
  \<open>CNotCalled\<close>: \<^verbatim>\<open>Close\<close> has not been called. \<open>CWait\<close>: \<^verbatim>\<open>s.cancel()\<close> done, in \<^verbatim>\<open>s.wg.Wait()\<close>.
  \<open>CConnClose\<close>: \<^verbatim>\<open>Wait\<close> has returned, \<^verbatim>\<open>s.conn.Close\<close> is next. \<open>CReturned err\<close>: \<^verbatim>\<open>Close\<close> has
  returned \<open>err\<close>.
\<close>

datatype closerPC =
    CNotCalled
  | CWait
  | CConnClose
  | CReturned "error option"

definition StatusNormalClosure :: nat where
  "StatusNormalClosure = 1000"

text \<open>
  The fields of \<^verbatim>\<open>session\<close> and what the model needs of the connection: \<open>cancelled\<close> is the
  state of the context that \<^verbatim>\<open>s.cancel\<close> cancels, \<open>wg\<close> the counter of the wait group, \<open>readCh\<close>
  the content of the buffered channel (oldest first), \<open>delivered\<close> what the consumer has
  received from it, \<open>written\<close> the frames handed to \<^verbatim>\<open>conn.Write\<close>, \<open>pings\<close> the number of pings
  that have returned, \<open>closeStatus\<close> the arguments of \<^verbatim>\<open>conn.Close\<close> once it has been called.
\<close>

record session =
  streamID :: string
  cancelled :: bool
  wg :: nat
  readCh :: "Message list"
  delivered :: "Message list"
  written :: "json list"
  pings :: nat
  closeStatus :: "(nat \<times> string) option"
  reader :: readerPC
  pinger :: pingerPC
  closer :: closerPC

text \<open>
  \<^verbatim>\<open>newSession\<close>: the channel is empty with room for 10, the wait group counts the two
  goroutines, both of which are about to run.
\<close>

definition readChCapacity :: nat where
  "readChCapacity = 10"

definition newSession :: "string \<Rightarrow> session" where
  "newSession sid =
     \<lparr>streamID = sid, cancelled = False, wg = 2, readCh = [], delivered = [], written = [],
      pings = 0, closeStatus = None, reader = RSelect, pinger = PSelect, closer = CNotCalled\<rparr>"

text \<open>
  \<^verbatim>\<open>Send\<close>: marshal, then write. \<open>w\<close> is what \<^verbatim>\<open>s.conn.Write\<close> returns. Nothing of the
  session's state is consulted.
\<close>

definition Send :: "session \<Rightarrow> Message \<Rightarrow> error option \<Rightarrow> error option \<times> session" where
  "Send s m w =
     (case Marshal m of
        Inl err \<Rightarrow> (Some err, s)
      | Inr payload \<Rightarrow> (w, s\<lparr>written := written s @ [payload]\<rparr>))"

text \<open>
  The steps of the threads. A step is atomic; what it reads from outside comes with it.
  \<^item> \<open>ReaderSelect\<close>: the first \<^verbatim>\<open>select\<close> of \<^verbatim>\<open>read\<close>.
  \<^item> \<open>ReaderRead r\<close>: \<^verbatim>\<open>s.conn.Read(ctx)\<close> returns \<open>r\<close>, and the payload is decoded.
  \<^item> \<open>ReaderQueue\<close>: the second \<^verbatim>\<open>select\<close> sends the message to \<^verbatim>\<open>s.readCh\<close>.
  \<^item> \<open>ReaderAbandon\<close>: the second \<^verbatim>\<open>select\<close> takes \<^verbatim>\<open>ctx.Done()\<close>.
  \<^item> \<open>PingTick\<close>: the \<^verbatim>\<open>select\<close> of \<^verbatim>\<open>ping\<close> takes the ticker.
  \<^item> \<open>PingReturn err\<close>: \<^verbatim>\<open>s.conn.Ping(ctx)\<close> returns \<open>err\<close>, which is only logged.
  \<^item> \<open>PingDone\<close>: the \<^verbatim>\<open>select\<close> of \<^verbatim>\<open>ping\<close> takes \<^verbatim>\<open>ctx.Done()\<close>.
  \<^item> \<open>CloseCancel\<close>, \<open>CloseWait\<close>, \<open>CloseConn err\<close>: the three statements of \<^verbatim>\<open>Close\<close>; the last
    one returns the \<open>err\<close> of \<^verbatim>\<open>s.conn.Close\<close>.
  \<^item> \<open>Receive\<close>: the consumer takes the oldest message from \<^verbatim>\<open>Messages()\<close>.
\<close>

datatype action =
    ReaderSelect
  | ReaderRead "error + payload"
  | ReaderQueue
  | ReaderAbandon
  | PingTick
  | PingReturn "error option"
  | PingDone
  | CloseCancel
  | CloseWait
  | CloseConn "error option"
  | Receive

text \<open>
  Returning from \<^verbatim>\<open>read\<close> or \<^verbatim>\<open>ping\<close> runs the deferred \<^verbatim>\<open>s.cancel()\<close> and then
  \<^verbatim>\<open>s.wg.Done()\<close>.
\<close>

definition readerReturns :: "session \<Rightarrow> session" where
  "readerReturns s = s\<lparr>cancelled := True, wg := wg s - 1, reader := RExited\<rparr>"

definition pingerReturns :: "session \<Rightarrow> session" where
  "pingerReturns s = s\<lparr>cancelled := True, wg := wg s - 1, pinger := PExited\<rparr>"

text \<open>
  \<open>perform a s\<close> is the state after the step \<open>a\<close>, or \<open>None\<close> when no thread can take that step
  in \<open>s\<close>: the thread is elsewhere, the channel is full or empty, the context is not done,
  the wait group is not at zero.
\<close>

fun perform :: "action \<Rightarrow> session \<Rightarrow> session option" where
  "perform ReaderSelect s =
     (if reader s = RSelect
      then (if cancelled s then Some (readerReturns s) else Some (s\<lparr>reader := RRead\<rparr>))
      else None)"
| "perform (ReaderRead r) s =
     (if reader s = RRead then
        (case r of
           Inl err \<Rightarrow> Some (readerReturns s)
         | Inr payload \<Rightarrow>
             (case UnmarshalMessage payload of
                Inl err \<Rightarrow> Some (s\<lparr>reader := RSelect\<rparr>)
              | Inr m \<Rightarrow> Some (s\<lparr>reader := RQueue m\<rparr>)))
      else None)"
| "perform ReaderQueue s =
     (case reader s of
        RQueue m \<Rightarrow>
          if length (readCh s) < readChCapacity
          then Some (s\<lparr>readCh := readCh s @ [m], reader := RSelect\<rparr>)
          else None
      | _ \<Rightarrow> None)"
| "perform ReaderAbandon s =
     (case reader s of
        RQueue m \<Rightarrow> if cancelled s then Some (readerReturns s) else None
      | _ \<Rightarrow> None)"
| "perform PingTick s =
     (if pinger s = PSelect then Some (s\<lparr>pinger := PPing\<rparr>) else None)"
| "perform (PingReturn err) s =
     (if pinger s = PPing then Some (s\<lparr>pings := Suc (pings s), pinger := PSelect\<rparr>) else None)"
| "perform PingDone s =
     (if pinger s = PSelect \<and> cancelled s then Some (pingerReturns s) else None)"
| "perform CloseCancel s =
     (if closer s = CNotCalled then Some (s\<lparr>cancelled := True, closer := CWait\<rparr>) else None)"
| "perform CloseWait s =
     (if closer s = CWait \<and> wg s = 0 then Some (s\<lparr>closer := CConnClose\<rparr>) else None)"
| "perform (CloseConn err) s =
     (if closer s = CConnClose
      then Some (s\<lparr>closeStatus := Some (StatusNormalClosure, []), closer := CReturned err\<rparr>)
      else None)"
| "perform Receive s =
     (case readCh s of
        [] \<Rightarrow> None
      | m # ms \<Rightarrow> Some (s\<lparr>readCh := ms, delivered := delivered s @ [m]\<rparr>))"

text \<open>A schedule: the steps in the order they happen.\<close>

fun exec :: "action list \<Rightarrow> session \<Rightarrow> session option" where
  "exec [] s = Some s"
| "exec (a # as) s = (case perform a s of None \<Rightarrow> None | Some s' \<Rightarrow> exec as s')"

text \<open>Everything pushed to the mailbox so far, in the order of the pushes.\<close>

definition pushed :: "session \<Rightarrow> Message list" where
  "pushed s = delivered s @ readCh s"

text \<open>The messages that decode from the frames a schedule reads, in the order read.\<close>

fun decodedFrames :: "action list \<Rightarrow> Message list" where
  "decodedFrames [] = []"
| "decodedFrames (ReaderRead (Inr payload) # as) =
     (case UnmarshalMessage payload of
        Inl err \<Rightarrow> decodedFrames as
      | Inr m \<Rightarrow> m # decodedFrames as)"
| "decodedFrames (a # as) = decodedFrames as"

text \<open>The message the reader holds, decoded and not yet queued.\<close>

fun inHand :: "readerPC \<Rightarrow> Message list" where
  "inHand (RQueue m) = [m]"
| "inHand pc = []"

fun readFailed :: "action \<Rightarrow> bool" where
  "readFailed (ReaderRead (Inl err)) = True"
| "readFailed a = False"

fun closeReturned :: "closerPC \<Rightarrow> bool" where
  "closeReturned (CReturned err) = True"
| "closeReturned pc = False"

fun waitReturned :: "closerPC \<Rightarrow> bool" where
  "waitReturned CConnClose = True"
| "waitReturned (CReturned err) = True"
| "waitReturned pc = False"

text \<open>Vocabulary for the properties of the session: how many goroutines the wait group
  still counts, and what the connection has been told, at each program point.\<close>

fun readerLive :: "readerPC \<Rightarrow> nat" where
  "readerLive RExited = 0"
| "readerLive pc = 1"

fun pingerLive :: "pingerPC \<Rightarrow> nat" where
  "pingerLive PExited = 0"
| "pingerLive pc = 1"

fun statusAt :: "closerPC \<Rightarrow> (nat \<times> string) option" where
  "statusAt (CReturned err) = Some (StatusNormalClosure, [])"
| "statusAt pc = None"

text \<open>The invariant of the session's threads.\<close>

definition sessInv :: "session \<Rightarrow> bool" where
  "sessInv s =
     (wg s = readerLive (reader s) + pingerLive (pinger s)
      \<and> (waitReturned (closer s) \<longrightarrow> wg s = 0)
      \<and> (closer s \<noteq> CNotCalled \<longrightarrow> cancelled s)
      \<and> (wg s < 2 \<longrightarrow> cancelled s)
      \<and> closeStatus s = statusAt (closer s))"

text \<open>
  The invariant of the reader: \<open>fs\<close>, the messages decoded so far, are the messages pushed
  and the one in hand; a reader that has returned may have dropped the last one.
\<close>

definition readInv :: "Message list \<Rightarrow> session \<Rightarrow> bool" where
  "readInv fs s =
     (if reader s = RExited
      then prefix (pushed s) fs \<and> length fs \<le> Suc (length (pushed s))
      else fs = pushed s @ inHand (reader s))"

text \<open>Frames and schedules for the examples.\<close>

definition clearFrame :: payload where
  "clearFrame = Some (JObj [(''event'', JStr ''clear''), (''stream_id'', JStr ''s1'')])"

definition dtmfFrame :: payload where
  "dtmfFrame =
     Some (JObj [(''event'', JStr ''dtmf''), (''stream_id'', JStr ''s1''), (''dtmf'', JStr ''5'')])"

definition startFrame :: payload where
  "startFrame = Some (JObj [(''event'', JStr ''start''), (''stream_id'', JStr ''s1'')])"

definition clearMsg :: Message where
  "clearMsg = Clear \<lparr>clear_Event = ''clear'', clear_StreamID = ''s1''\<rparr>"

definition dtmfMsg :: Message where
  "dtmfMsg = DTMF \<lparr>dtmf_Event = ''dtmf'', dtmf_StreamID = ''s1'', dtmf_DTMF = ''5''\<rparr>"

text \<open>
  One frame is read and queued, a ping is in flight when \<^verbatim>\<open>Close\<close> is called, both loops see
  the cancellation, \<^verbatim>\<open>Close\<close> returns.
\<close>

definition closeSchedule :: "action list" where
  "closeSchedule =
     [ReaderSelect, ReaderRead (Inr clearFrame), ReaderQueue, PingTick, CloseCancel,
      ReaderSelect, PingReturn None, PingDone, CloseWait, CloseConn None]"

definition afterClose :: session where
  "afterClose =
     \<lparr>streamID = ''s1'', cancelled = True, wg = 0, readCh = [clearMsg], delivered = [],
      written = [], pings = 1, closeStatus = Some (StatusNormalClosure, []),
      reader = RExited, pinger = PExited, closer = CReturned None\<rparr>"

text \<open>
  Five frames arrive: a clear, a start (unknown to the decoder), one that is not JSON, a
  dtmf; the consumer takes one message in between; each of the two that decode is queued.
\<close>

definition readSchedule :: "action list" where
  "readSchedule =
     [ReaderSelect, ReaderRead (Inr clearFrame), ReaderQueue,
      ReaderSelect, ReaderRead (Inr startFrame),
      ReaderSelect, ReaderRead (Inr None), Receive,
      ReaderSelect, ReaderRead (Inr dtmfFrame), ReaderQueue, ReaderSelect]"

definition afterReads :: session where
  "afterReads =
     \<lparr>streamID = ''s1'', cancelled = False, wg = 2, readCh = [dtmfMsg], delivered = [clearMsg],
      written = [], pings = 0, closeStatus = None,
      reader = RRead, pinger = PSelect, closer = CNotCalled\<rparr>"

text \<open>Then the read fails.\<close>

definition afterReadError :: session where
  "afterReadError =
     \<lparr>streamID = ''s1'', cancelled = True, wg = 1, readCh = [dtmfMsg], delivered = [clearMsg],
      written = [], pings = 0, closeStatus = None,
      reader = RExited, pinger = PSelect, closer = CNotCalled\<rparr>"

section \<open>Handshake client (\<^verbatim>\<open>NewSession\<close>)\<close>

record Client =
  baseURL :: string
  headers :: "(string \<times> string list) list"
  inputFormat :: InputFormat

text \<open>
  What ends the \<^verbatim>\<open>select\<close> of the handshake: a first message from \<^verbatim>\<open>s.Messages()\<close>, or the
  context done with \<^verbatim>\<open>ctx.Err()\<close>.
\<close>

datatype handshakeEvent =
    FirstMessage Message
  | ContextDone error

text \<open>The calls \<^verbatim>\<open>NewSession\<close> makes on the transport and on the session, in order.\<close>

datatype call =
    DialCall string
  | NewSessionCall string
  | SendCall Message
  | CloseCall

definition startMessage :: "Client \<Rightarrow> string \<Rightarrow> Metadata \<Rightarrow> Message" where
  "startMessage c uuid metadata =
     Start \<lparr>start_Event = MessageTypeStart, start_StreamID = uuid,
            start_Config = \<lparr>InputFormat = inputFormat c\<rparr>, start_Metadata = metadata\<rparr>"

text \<open>
  \<^verbatim>\<open>NewSession\<close>. From outside come: \<open>dial\<close>, the error of \<^verbatim>\<open>websocket.Dial\<close>; \<open>uuid\<close>, the
  \<^verbatim>\<open>uuid.NewString()\<close>; \<open>w\<close>, what \<^verbatim>\<open>conn.Write\<close> returns for the start message; and \<open>first\<close>,
  what ends the wait. The result is the error, or the stream identifier of the session
  handed to the caller, together with the calls made. \<^verbatim>\<open>newSession\<close> never returns an
  error, and the error of the \<^verbatim>\<open>Close\<close> on the send path is only logged.
\<close>

definition NewSession ::
  "Client \<Rightarrow> string \<Rightarrow> Metadata \<Rightarrow> error option \<Rightarrow> string \<Rightarrow> error option \<Rightarrow> handshakeEvent \<Rightarrow>
   (error + string) \<times> call list"
where
  "NewSession c agentID metadata dial uuid w first =
     (let addr = baseURL c @ ''/agents/stream/'' @ agentID in
      case dial of
        Some err \<Rightarrow> (Inl err, [DialCall addr])
      | None \<Rightarrow>
          (let start = startMessage c uuid metadata;
               calls = [DialCall addr, NewSessionCall uuid, SendCall start]
           in case fst (Send (newSession uuid) start w) of
                Some err \<Rightarrow> (Inl err, calls @ [CloseCall])
              | None \<Rightarrow>
                  (case first of
                     FirstMessage m \<Rightarrow>
                       (case m of
                          Ack ack \<Rightarrow> (Inr uuid, calls)
                        | _ \<Rightarrow> (Inl (Errorf (''expected ack message, but got '' @ Type m)), calls))
                   | ContextDone err \<Rightarrow> (Inl (Wrapped ''handshake timed out'' err), calls))))"

text \<open>The client of \<^verbatim>\<open>runConversation\<close>, and a session on which \<^verbatim>\<open>Close\<close> has returned.\<close>

definition theClient :: Client where
  "theClient =
     \<lparr>baseURL = ''wss://agents.cartesia.ai'',
      headers = [(''Authorization'', [''Bearer key'']), (''Cartesia-Version'', [''2025-04-16''])],
      inputFormat = InputFormatPCM44100\<rparr>"

definition closedSession :: session where
  "closedSession =
     \<lparr>streamID = ''s1'', cancelled = True, wg = 0, readCh = [], delivered = [], written = [],
      pings = 0, closeStatus = Some (StatusNormalClosure, []), reader = RExited,
      pinger = PExited, closer = CReturned None\<rparr>"

section \<open>Properties of the base64 codec\<close>

lemma index_of_nth: "distinct xs \<Longrightarrow> i < length xs \<Longrightarrow> index_of (xs ! i) xs = Some i"
proof (induction xs arbitrary: i)
  case Nil then show ?case by simp
next
  case (Cons x xs)
  show ?case
  proof (cases i)
    case 0 then show ?thesis by simp
  next
    case (Suc j)
    with Cons.prems have "xs ! j \<noteq> x" by auto
    with Suc Cons show ?thesis by auto
  qed
qed

lemma length_encodeStd: "length encodeStd = 64" by (simp add: encodeStd_def)
lemma distinct_encodeStd: "distinct encodeStd" by (simp add: encodeStd_def)

lemma dec64_enc64: "dec64 (enc64 i) = Some (i mod 64)"
  unfolding dec64_def enc64_def
  by (rule index_of_nth) (simp_all add: distinct_encodeStd length_encodeStd)

lemma index_of_None: "c \<notin> set xs \<Longrightarrow> index_of c xs = None"
  by (induction xs) auto

lemma dec64_pad: "dec64 (CHR ''='') = None"
  unfolding dec64_def by (rule index_of_None) (simp add: encodeStd_def)

lemma enc64_in: "enc64 i \<in> set encodeStd"
  unfolding enc64_def by (rule nth_mem) (simp add: length_encodeStd)

lemma enc64_not_nl: "enc64 i \<noteq> CHR 0x0A" "enc64 i \<noteq> CHR 0x0D"
  using enc64_in[of i] by (auto simp: encodeStd_def)

lemma filter_EncodeToString:
  "filter (\<lambda>c. c \<noteq> CHR 0x0A \<and> c \<noteq> CHR 0x0D) (EncodeToString bs) = EncodeToString bs"
  by (induction bs rule: EncodeToString.induct) (simp_all add: enc64_not_nl)

lemma byte_val_lt: "byte_val c < 256"
proof -
  have "byte_val c = byte_val c mod 256" by (simp only: of_char_mod_256)
  also have "\<dots> < 256" by simp
  finally show ?thesis .
qed

lemma d4: "(a::nat) < 256 \<Longrightarrow> a div 4 < 64" by (simp add: less_mult_imp_div_less)
lemma d16: "(a::nat) < 256 \<Longrightarrow> a div 16 < 16" by (simp add: less_mult_imp_div_less)
lemma d64: "(a::nat) < 256 \<Longrightarrow> a div 64 < 4" by (simp add: less_mult_imp_div_less)

lemma hi2: "(r::nat) < 4 \<Longrightarrow> q < 16 \<Longrightarrow> (r * 16 + q) mod 64 = r * 16 + q" by simp
lemma hi2d: "(q::nat) < 16 \<Longrightarrow> (r * 16 + q) div 16 = r" by simp
lemma hi2m: "(q::nat) < 16 \<Longrightarrow> (r * 16 + q) mod 16 = q" by simp
lemma hi3: "(r::nat) < 16 \<Longrightarrow> q < 4 \<Longrightarrow> (r * 4 + q) mod 64 = r * 4 + q" by simp
lemma hi3d: "(q::nat) < 4 \<Longrightarrow> (r * 4 + q) div 4 = r" by simp
lemma hi3m: "(q::nat) < 4 \<Longrightarrow> (r * 4 + q) mod 4 = q" by simp

lemma sextets1:
  fixes a :: nat assumes "a < 256"
  shows "(a div 4) mod 64 * 4 + ((a mod 4) * 16) mod 64 div 16 = a"
  using d4[OF assms] by simp

lemma sextets2a:
  fixes a b :: nat assumes "a < 256" "b < 256"
  shows "(a div 4) mod 64 * 4 + ((a mod 4) * 16 + b div 16) mod 64 div 16 = a"
  using d4[OF assms(1)] d16[OF assms(2)] by (simp add: hi2 hi2d)

lemma sextets2b:
  fixes a b :: nat assumes "a < 256" "b < 256"
  shows "((a mod 4) * 16 + b div 16) mod 64 mod 16 * 16 + ((b mod 16) * 4) mod 64 div 4 = b"
  using d16[OF assms(2)] by (simp add: hi2 hi2m)

lemma sextets3b:
  fixes a b c :: nat assumes "a < 256" "b < 256" "c < 256"
  shows "((a mod 4) * 16 + b div 16) mod 64 mod 16 * 16 + ((b mod 16) * 4 + c div 64) mod 64 div 4 = b"
  using d16[OF assms(2)] d64[OF assms(3)] by (simp add: hi2 hi2m hi3 hi3d)

lemma sextets3c:
  fixes b c :: nat assumes "b < 256" "c < 256"
  shows "((b mod 16) * 4 + c div 64) mod 64 mod 4 * 64 + (c mod 64) mod 64 = c"
  using d64[OF assms(2)] by (simp add: hi3 hi3m)

lemmas sextets =
  sextets1[OF byte_val_lt] sextets2a[OF byte_val_lt byte_val_lt] sextets2b[OF byte_val_lt byte_val_lt]
  sextets3b[OF byte_val_lt byte_val_lt byte_val_lt] sextets3c[OF byte_val_lt byte_val_lt]

lemma decodeQuanta_EncodeToString: "decodeQuanta (EncodeToString bs) = Inr bs"
proof (induction bs rule: EncodeToString.induct)
  case 1 show ?case by simp
next
  case (2 a)
  show ?case
    by (simp only: EncodeToString.simps decodeQuanta.simps dec64_enc64 dec64_pad sextets
        option.case prod.case simp_thms if_True char_of_char)
next
  case (3 a b)
  show ?case
    by (simp only: EncodeToString.simps decodeQuanta.simps dec64_enc64 dec64_pad sextets
        option.case prod.case simp_thms if_True char_of_char)
next
  case (4 a b c rest)
  then show ?case
    by (simp only: EncodeToString.simps decodeQuanta.simps dec64_enc64 dec64_pad sextets
        option.case prod.case sum.case simp_thms if_True char_of_char append.simps)
qed

lemma DecodeString_EncodeToString: "DecodeString (EncodeToString bs) = Inr bs"
  by (simp add: DecodeString_def filter_EncodeToString decodeQuanta_EncodeToString)


section \<open>Properties of the audio chunker\<close>

lemma recorded_append: "recorded (tr @ tr') = recorded tr @ recorded tr'"
  by (induction tr rule: recorded.induct) simp_all

lemma sentPayloads_append: "sentPayloads (tr @ tr') = sentPayloads tr @ sentPayloads tr'"
  by (induction tr rule: sentPayloads.induct) simp_all

lemma chunkLoop_succeeds:
  "chunkLoop succeeds succeeds sid buf offset k tr =
     (if offset < length buf
      then chunkLoop succeeds succeeds sid buf (offset + CHUNK_SIZE) (Suc k)
             (tr @ [WriteLeft (take (min (offset + CHUNK_SIZE) (length buf) - offset) (drop offset buf)),
                    SendMsg (mediaMsg sid (take (min (offset + CHUNK_SIZE) (length buf) - offset) (drop offset buf))),
                    Sleep 10])
      else (None, tr))"
  by (subst chunkLoop.simps) (simp add: succeeds_def Let_def)

lemma take_drop_step: "take n (drop k xs) @ drop (k + n) xs = drop k xs"
  by (metis append_take_drop_id drop_drop add.commute)

lemma chunkLoop_concat:
  "concat (recorded (snd (chunkLoop succeeds succeeds sid buf offset k tr)))
     = concat (recorded tr) @ drop offset buf"
proof (induction succeeds succeeds sid buf offset k tr rule: chunkLoop.induct)
  case (1 sid buf offset k tr)
  show ?case
  proof (cases "offset < length buf")
    case False
    then show ?thesis by (subst chunkLoop_succeeds) simp
  next
    case True
    have c: "min (offset + CHUNK_SIZE) (length buf) - offset = min CHUNK_SIZE (length buf - offset)"
      by simp
    have "take (min CHUNK_SIZE (length buf - offset)) (drop offset buf) @ drop (offset + CHUNK_SIZE) buf
            = drop offset buf"
      by (metis take_drop_step take_all_iff length_drop take_take order_refl)
    then show ?thesis
      using True 1
      by (subst chunkLoop_succeeds) (simp add: succeeds_def recorded_append c)
  qed
qed


lemma chunkLoop_payloads:
  "sentPayloads tr = map EncodeToString (recorded tr) \<Longrightarrow>
   sentPayloads (snd (chunkLoop succeeds succeeds sid buf offset k tr))
     = map EncodeToString (recorded (snd (chunkLoop succeeds succeeds sid buf offset k tr)))"
proof (induction succeeds succeeds sid buf offset k tr rule: chunkLoop.induct)
  case (1 sid buf offset k tr)
  show ?case
  proof (cases "offset < length buf")
    case False
    with 1 show ?thesis by (subst (1 2) chunkLoop_succeeds) simp
  next
    case True
    with 1 show ?thesis
      by (subst (1 2) chunkLoop_succeeds)
         (simp add: succeeds_def recorded_append sentPayloads_append mediaMsg_def)
  qed
qed

lemma chunkLoop_100000:
  assumes "length buf = 100000"
  shows "fst (chunkLoop succeeds succeeds sid buf 0 0 []) = None"
    and "map length (recorded (snd (chunkLoop succeeds succeeds sid buf 0 0 [])))
           = [8820, 8820, 8820, 8820, 8820, 8820, 8820, 8820, 8820, 8820, 8820, 2980]"
  using assms by (simp_all add: chunkLoop_succeeds CHUNK_SIZE_def)

text \<open>
  C5 (as amended). When neither collaborator fails, the chunking loop of \<^verbatim>\<open>sendAudioFile\<close> on
  a buffer of 100,000 bytes ends without an error after exactly 12 chunks: 11 of 8820 bytes
  and a last one of 2,980 bytes. The chunks, in the order they are recorded and sent,
  concatenate to the buffer; the payload sent for each is its base64 encoding, and decoding
  that payload gives the chunk back.
\<close>

theorem chunking_100000_bytes:
  assumes "length audioData = 100000"
  shows "fst (chunkLoop succeeds succeeds sid audioData 0 0 []) = None
       \<and> length (recorded (snd (chunkLoop succeeds succeeds sid audioData 0 0 []))) = 12
       \<and> map length (recorded (snd (chunkLoop succeeds succeeds sid audioData 0 0 [])))
           = [8820, 8820, 8820, 8820, 8820, 8820, 8820, 8820, 8820, 8820, 8820, 2980]
       \<and> concat (recorded (snd (chunkLoop succeeds succeeds sid audioData 0 0 []))) = audioData
       \<and> sentPayloads (snd (chunkLoop succeeds succeeds sid audioData 0 0 []))
           = map EncodeToString (recorded (snd (chunkLoop succeeds succeeds sid audioData 0 0 [])))
       \<and> map DecodeString (sentPayloads (snd (chunkLoop succeeds succeeds sid audioData 0 0 [])))
           = map Inr (recorded (snd (chunkLoop succeeds succeeds sid audioData 0 0 [])))"
proof -
  let ?tr = "snd (chunkLoop succeeds succeeds sid audioData 0 0 [])"
  have lens: "map length (recorded ?tr)
                = [8820, 8820, 8820, 8820, 8820, 8820, 8820, 8820, 8820, 8820, 8820, 2980]"
    by (rule chunkLoop_100000(2)[OF assms])
  have "length (map length (recorded ?tr)) = 12"
    by (simp only: lens) simp
  then have n: "length (recorded ?tr) = 12" by simp
  have cat: "concat (recorded ?tr) = audioData"
    using chunkLoop_concat[of sid audioData 0 0 "[]"] by simp
  have pay: "sentPayloads ?tr = map EncodeToString (recorded ?tr)"
    by (rule chunkLoop_payloads) simp
  have "map DecodeString (map EncodeToString (recorded ?tr)) = map Inr (recorded ?tr)"
    by (simp add: DecodeString_EncodeToString)
  with pay have dec: "map DecodeString (sentPayloads ?tr) = map Inr (recorded ?tr)" by simp
  from chunkLoop_100000(1)[OF assms] n lens cat pay dec show ?thesis by blast
qed

theorem chunking_100000_bytes_witness:
  "length (replicate 100000 (CHR 0x00)) = 100000
   \<and> map length (recorded (snd (chunkLoop succeeds succeeds ''stream'' (replicate 100000 (CHR 0x00)) 0 0 [])))
       = [8820, 8820, 8820, 8820, 8820, 8820, 8820, 8820, 8820, 8820, 8820, 2980]
   \<and> concat (recorded (snd (chunkLoop succeeds succeeds ''stream'' (replicate 100000 (CHR 0x00)) 0 0 [])))
       = replicate 100000 (CHR 0x00)"
  using chunking_100000_bytes[of "replicate 100000 (CHR 0x00)" "''stream''"] by simp

text \<open>
  C5 as the spec words it fails: the last chunk of a 100,000-byte buffer is not 1,880 bytes
  long (11 * 8820 + 1880 is 98,900).
\<close>

theorem chunking_last_chunk_counterexample:
  "map length (recorded (snd (chunkLoop succeeds succeeds ''stream'' (replicate 100000 (CHR 0x00)) 0 0 [])))
     \<noteq> [8820, 8820, 8820, 8820, 8820, 8820, 8820, 8820, 8820, 8820, 8820, 1880]"
  by (simp add: chunkLoop_succeeds CHUNK_SIZE_def)

section \<open>Properties of the protocol codec\<close>

lemmas MessageType_defs =
  MessageTypeStart_def MessageTypeAck_def MessageTypeMediaInput_def MessageTypeDTMF_def
  MessageTypeCustom_def MessageTypeMediaOutput_def MessageTypeClear_def

lemmas decode_defs =
  UnmarshalMessage_def genericEvent_def Unmarshal_def decodeStruct_def fieldOf_def
  storeGeneric_def decodeString_def toUpper_def

lemma UnmarshalMessage_unknown:
  assumes "genericEvent data = Inr ev" and "ev \<notin> set dispatched"
  shows "UnmarshalMessage data = Inl ErrUnknownMessageType"
  using assms by (simp add: UnmarshalMessage_def dispatched_def)

lemma UnmarshalMessage_Type:
  assumes "UnmarshalMessage data = Inr m"
  shows "genericEvent data = Inr (Type m) \<and> Type m \<in> set dispatched"
  using assms
  by (auto simp: UnmarshalMessage_def dispatched_def split: sum.splits if_splits)

text \<open>
  C10. \<^verbatim>\<open>UnmarshalMessage\<close> dispatches on Ack, MediaOutput, Clear, DTMF and Custom only: a
  buffer whose discriminator is \<open>start\<close> or \<open>media_input\<close> fails with
  \<^verbatim>\<open>ErrUnknownMessageType\<close>, as does one whose discriminator names no variant; and a message
  that does come back is of one of the five dispatched variants.
\<close>

theorem dispatch_table:
  "(genericEvent data = Inr ev \<and> (ev = MessageTypeStart \<or> ev = MessageTypeMediaInput \<or> ev \<notin> set dispatched)
      \<longrightarrow> UnmarshalMessage data = Inl ErrUnknownMessageType)
   \<and> (UnmarshalMessage data = Inr m \<longrightarrow> Type m \<in> set dispatched)"
proof -
  have "MessageTypeStart \<notin> set dispatched" "MessageTypeMediaInput \<notin> set dispatched"
    by (simp_all add: dispatched_def MessageType_defs)
  then show ?thesis
    using UnmarshalMessage_unknown[of data ev] UnmarshalMessage_Type[of data m] by blast
qed

theorem dispatch_table_witness:
  "genericEvent (Some (JObj [(''event'', JStr ''start'')])) = Inr MessageTypeStart
   \<and> UnmarshalMessage (Some (JObj [(''event'', JStr ''start'')])) = Inl ErrUnknownMessageType
   \<and> genericEvent (Some (JObj [(''event'', JStr ''media_input'')])) = Inr MessageTypeMediaInput
   \<and> UnmarshalMessage (Some (JObj [(''event'', JStr ''media_input'')])) = Inl ErrUnknownMessageType
   \<and> genericEvent (Some (JObj [(''event'', JStr ''bogus'')])) = Inr ''bogus''
   \<and> UnmarshalMessage (Some (JObj [(''event'', JStr ''bogus'')])) = Inl ErrUnknownMessageType
   \<and> UnmarshalMessage (Some (JObj [(''event'', JStr ''clear'')])) = Inr (Clear \<lparr>clear_Event = ''clear'', clear_StreamID = []\<rparr>)
   \<and> Type (Clear \<lparr>clear_Event = ''clear'', clear_StreamID = []\<rparr>) \<in> set dispatched"
  using dispatch_table[of "Some (JObj [(''event'', JStr ''start'')])" MessageTypeStart]
        dispatch_table[of "Some (JObj [(''event'', JStr ''media_input'')])" MessageTypeMediaInput]
        dispatch_table[of "Some (JObj [(''event'', JStr ''bogus'')])" "''bogus''"]
        dispatch_table[of "Some (JObj [(''event'', JStr ''clear'')])" _ "Clear \<lparr>clear_Event = ''clear'', clear_StreamID = []\<rparr>"]
  by (simp add: decode_defs storeClear_def zeroClear_def dispatched_def MessageType_defs)



lemma decodeString_error: "decodeString v cur = Inl e \<Longrightarrow> e = UnmarshalTypeError"
  by (auto simp: decodeString_def split: json.splits)








lemma storeGeneric_error: "typeErrors storeGeneric"
  by (auto simp: typeErrors_def storeGeneric_def dest: decodeString_error)































lemma collect_elems:
  assumes "\<forall>x \<in> set xs. \<exists>v. encodeAny x = Inr v \<and> decodeAny v = Inr x"
  shows "\<exists>vs. collect (map encodeAny xs) = Inr vs \<and> decodeElems vs = Inr xs"
  using assms
proof (induction xs)
  case Nil then show ?case by simp
next
  case (Cons x xs)
  from Cons.prems obtain v where v: "encodeAny x = Inr v" "decodeAny v = Inr x" by auto
  from Cons obtain vs where vs: "collect (map encodeAny xs) = Inr vs" "decodeElems vs = Inr xs"
    by auto
  show ?case by (simp add: v vs)
qed

lemma members_roundtrip:
  assumes "\<forall>(k, r) \<in> set ps.
             \<exists>x v. fmlookup m k = Some x \<and> validUTF8 k \<and> r = Inr v \<and> decodeAny v = Inr x"
  shows "\<exists>kvs. collect (map member ps) = Inr kvs
              \<and> (\<forall>acc. decodeMembers kvs acc
                          = Inr (fold (\<lambda>k. fmupd k (the (fmlookup m k))) (map fst ps) acc))"
  using assms
proof (induction ps)
  case Nil then show ?case by simp
next
  case (Cons p ps)
  obtain k r where p: "p = (k, r)" by (cases p)
  from Cons.prems p obtain x v where
    x: "fmlookup m k = Some x" "validUTF8 k" "r = Inr v" "decodeAny v = Inr x"
    by auto
  from Cons obtain kvs where
    kvs: "collect (map member ps) = Inr kvs"
      "\<And>acc. decodeMembers kvs acc
                = Inr (fold (\<lambda>k. fmupd k (the (fmlookup m k))) (map fst ps) acc)"
    by auto
  from x(2) have ck: "coerceUTF8 k = k" by (simp add: validUTF8_def)
  have "member p = Inr (k, v)" by (simp add: member_def p x ck)
  then show ?case by (simp add: x kvs p)
qed

lemma lookup_fold_fmupd:
  "fmlookup (fold (\<lambda>k. fmupd k (f k)) ks acc) x
     = (if x \<in> set ks then Some (f x) else fmlookup acc x)"
  by (induction ks arbitrary: acc) auto

lemma fold_rebuilds:
  assumes "set ks = fset (fmdom m)"
  shows "fold (\<lambda>k. fmupd k (the (fmlookup m k))) ks fmempty = m"
proof (rule fmap_ext)
  fix x
  show "fmlookup (fold (\<lambda>k. fmupd k (the (fmlookup m k))) ks fmempty) x = fmlookup m x"
    using assms by (cases "fmlookup m x") (auto simp: lookup_fold_fmupd fmlookup_dom_iff)
qed

lemma encodeMembers_roundtrip:
  assumes "\<forall>k x. fmlookup m k = Some x \<longrightarrow>
             validUTF8 k \<and> (\<exists>v. encodeAny x = Inr v \<and> decodeAny v = Inr x)"
  shows "\<exists>kvs. encodeMembers (fmmap encodeAny m) = Inr kvs \<and> decodeMembers kvs fmempty = Inr m"
proof -
  let ?ps = "sorted_list_of_fmap (fmmap encodeAny m)"
  have fst: "map fst ?ps = sorted_list_of_fset (fmdom m)"
    by (simp add: sorted_list_of_fmap_def comp_def)
  have "\<forall>(k, r) \<in> set ?ps.
          \<exists>x v. fmlookup m k = Some x \<and> validUTF8 k \<and> r = Inr v \<and> decodeAny v = Inr x"
    using assms by (fastforce simp: sorted_list_of_fmap_def fmlookup_dom_iff)
  from members_roundtrip[OF this] obtain kvs where
    kvs: "collect (map member ?ps) = Inr kvs"
      "\<And>acc. decodeMembers kvs acc
                = Inr (fold (\<lambda>k. fmupd k (the (fmlookup m k))) (map fst ?ps) acc)"
    by blast
  have "encodeMembers (fmmap encodeAny m) = Inr kvs"
    using kvs(1) by (simp add: encodeMembers_def member_def)
  moreover have "decodeMembers kvs fmempty = Inr m"
    by (simp only: kvs(2) fst) (simp add: fold_rebuilds)
  ultimately show ?thesis by blast
qed

lemma any_roundtrip:
  "jsonNative x \<Longrightarrow> \<exists>v. encodeAny x = Inr v \<and> decodeAny v = Inr x"
proof (induction x)
  case (ASlice xs)
  then have "\<forall>x \<in> set xs. \<exists>v. encodeAny x = Inr v \<and> decodeAny v = Inr x"
    by (simp add: list_all_iff)
  from collect_elems[OF this] show ?case by auto
next
  case (AMap m)
  from AMap.prems have nat: "fmpred (\<lambda>k x. validUTF8 k \<and> jsonNative x) m" by simp
  have "\<forall>k x. fmlookup m k = Some x \<longrightarrow>
             validUTF8 k \<and> (\<exists>v. encodeAny x = Inr v \<and> decodeAny v = Inr x)"
  proof (intro allI impI)
    fix k x assume l: "fmlookup m k = Some x"
    from nat l have "validUTF8 k \<and> jsonNative x" by (rule fmpredD)
    moreover from l have "x \<in> fmran' m" by (rule fmran'I)
    ultimately show "validUTF8 k \<and> (\<exists>v. encodeAny x = Inr v \<and> decodeAny v = Inr x)"
      using AMap.IH by blast
  qed
  from encodeMembers_roundtrip[OF this] show ?case by auto
qed (auto simp: validUTF8_def)

lemma metadata_roundtrip:
  assumes "cleanMetadata md"
  shows "\<exists>v. encodeMetadata md = Inr v \<and> decodeMetadata v None = Inr md"
proof (cases md)
  case None
  then show ?thesis by (simp add: encodeMetadata_def decodeMetadata_def)
next
  case (Some m)
  with assms have "\<forall>k x. fmlookup m k = Some x \<longrightarrow>
             validUTF8 k \<and> (\<exists>v. encodeAny x = Inr v \<and> decodeAny v = Inr x)"
    by (auto simp: cleanMetadata_def fmpred_iff dest: any_roundtrip)
  from encodeMembers_roundtrip[OF this] obtain kvs where
    "encodeMembers (fmmap encodeAny m) = Inr kvs" "decodeMembers kvs fmempty = Inr m" by blast
  with Some show ?thesis by (simp add: encodeMetadata_def decodeMetadata_def)
qed


lemmas encode_defs =
  roundTrip_def encodeString_def encodeStreamConfig_def encodeMedia_def validUTF8_def

lemma roundTrip_Ack: "canonical (Ack m) \<Longrightarrow> roundTrip (Ack m) = Inr (Ack m)"
  by (cases m, cases "ack_Config m")
     (simp add: encode_defs decode_defs MessageType_defs storeAck_def zeroAck_def
        decodeStreamConfig_def storeStreamConfig_def zeroStreamConfig_def)

lemma roundTrip_MediaOutput:
  "canonical (MediaOutput m) \<Longrightarrow> roundTrip (MediaOutput m) = Inr (MediaOutput m)"
  by (cases m, cases "media_output_Media m")
     (simp add: encode_defs decode_defs MessageType_defs storeMediaOutput_def zeroMediaOutput_def
        decodeMedia_def storeMedia_def zeroMedia_def)

lemma roundTrip_Clear: "canonical (Clear m) \<Longrightarrow> roundTrip (Clear m) = Inr (Clear m)"
  by (cases m)
     (simp add: encode_defs decode_defs MessageType_defs storeClear_def zeroClear_def)

lemma roundTrip_DTMF: "canonical (DTMF m) \<Longrightarrow> roundTrip (DTMF m) = Inr (DTMF m)"
  by (cases m)
     (simp add: encode_defs decode_defs MessageType_defs storeDTMF_def zeroDTMF_def)

lemma roundTrip_Custom:
  assumes "canonical (Custom m)"
  shows "roundTrip (Custom m) = Inr (Custom m)"
proof -
  from assms have "cleanMetadata (custom_Metadata m)" by simp
  from metadata_roundtrip[OF this] obtain v where
    v: "encodeMetadata (custom_Metadata m) = Inr v" "decodeMetadata v None = Inr (custom_Metadata m)"
    by blast
  with assms show ?thesis
    by (cases m)
       (simp add: encode_defs decode_defs MessageType_defs storeCustom_def zeroCustom_def)
qed

lemma roundTrip_Start:
  assumes "canonical (Start m)"
  shows "roundTrip (Start m) = Inl ErrUnknownMessageType"
proof -
  from assms have "cleanMetadata (start_Metadata m)" by simp
  from metadata_roundtrip[OF this] obtain v where
    v: "encodeMetadata (start_Metadata m) = Inr v" by blast
  with assms show ?thesis
    by (simp add: encode_defs decode_defs MessageType_defs)
qed

lemma roundTrip_MediaInput:
  "canonical (MediaInput m) \<Longrightarrow> roundTrip (MediaInput m) = Inl ErrUnknownMessageType"
  by (simp add: encode_defs decode_defs MessageType_defs)

text \<open>
  C3 (as amended). For a message of the Ack, MediaOutput, DTMF, Custom or Clear variant
  whose \<^verbatim>\<open>Event\<close> field holds its own tag, whose strings are well-formed UTF-8 and whose
  metadata (nil and empty included) holds only values of the kinds the decoder produces,
  decoding the JSON encoding succeeds and yields the message. For a Start or MediaInput
  message of that form the decoding fails with \<^verbatim>\<open>ErrUnknownMessageType\<close>.
\<close>

theorem round_trip:
  assumes "canonical m"
  shows "roundTrip m =
           (if Type m = MessageTypeStart \<or> Type m = MessageTypeMediaInput
            then Inl ErrUnknownMessageType else Inr m)"
  using assms
  by (cases m)
     (simp_all add: roundTrip_Ack roundTrip_MediaOutput roundTrip_Clear roundTrip_DTMF
        roundTrip_Custom roundTrip_Start roundTrip_MediaInput MessageType_defs)

theorem round_trip_witness:
  "canonical (Custom \<lparr>custom_Event = ''custom'', custom_StreamID = ''s1'',
                        custom_Metadata = Some fmempty\<rparr>)
   \<and> roundTrip (Custom \<lparr>custom_Event = ''custom'', custom_StreamID = ''s1'',
                          custom_Metadata = Some fmempty\<rparr>)
       = Inr (Custom \<lparr>custom_Event = ''custom'', custom_StreamID = ''s1'',
                        custom_Metadata = Some fmempty\<rparr>)
   \<and> canonical (MediaOutput \<lparr>media_output_Event = ''media_output'',
                               media_output_StreamID = ''s1'',
                               media_output_Media = \<lparr>Payload = []\<rparr>\<rparr>)
   \<and> roundTrip (MediaOutput \<lparr>media_output_Event = ''media_output'',
                               media_output_StreamID = ''s1'',
                               media_output_Media = \<lparr>Payload = []\<rparr>\<rparr>)
       = Inr (MediaOutput \<lparr>media_output_Event = ''media_output'',
                             media_output_StreamID = ''s1'',
                             media_output_Media = \<lparr>Payload = []\<rparr>\<rparr>)"
  using round_trip[of "Custom \<lparr>custom_Event = ''custom'', custom_StreamID = ''s1'',
                                custom_Metadata = Some fmempty\<rparr>"]
        round_trip[of "MediaOutput \<lparr>media_output_Event = ''media_output'',
                                     media_output_StreamID = ''s1'',
                                     media_output_Media = \<lparr>Payload = []\<rparr>\<rparr>"]
  by (simp add: cleanMetadata_def validUTF8_def MessageType_defs)

text \<open>
  C3 as the spec words it fails: a Start message does not decode from its own encoding.
\<close>

theorem round_trip_start_counterexample:
  "roundTrip (Start \<lparr>start_Event = ''start'', start_StreamID = ''s1'',
                      start_Config = \<lparr>InputFormat = ''pcm_44100''\<rparr>,
                      start_Metadata = None\<rparr>)
     = Inl ErrUnknownMessageType"
  by (simp add: encode_defs decode_defs encodeMetadata_def MessageType_defs)

section \<open>Properties of the turn-taking controller\<close>

lemma turnInv_initial: "turnInv (initialTurn now)"
  by (simp add: turnInv_def initialTurn_def)

lemma onTick_inv: "turnInv s \<Longrightarrow> fst (onTick now s) \<noteq> Panicked \<and> turnInv (snd (onTick now s))"
  by (auto simp: turnInv_def onTick_def closeSendQuestion_def Let_def split: if_splits prod.splits)

lemma step_inv: "turnInv s \<Longrightarrow> fst (step e s) \<noteq> Panicked \<and> turnInv (snd (step e s))"
proof (cases e)
  case (Recv m now wr)
  assume "turnInv s"
  then show ?thesis
    by (cases m) (auto simp: Recv turnInv_def split: sum.splits option.splits)
next
  case (Tick now)
  assume "turnInv s"
  then show ?thesis by (simp add: Tick onTick_inv)
qed (auto simp: turnInv_def)

lemma listen_inv:
  "turnInv s \<Longrightarrow> fst (listenForResponses s es) \<noteq> Panicked \<and> turnInv (snd (listenForResponses s es))"
proof (induction es arbitrary: s)
  case Nil then show ?case by simp
next
  case (Cons e es)
  obtain st s' where stp: "step e s = (st, s')" by (cases "step e s")
  with step_inv[OF Cons.prems, of e] have st: "st \<noteq> Panicked" "turnInv s'" by auto
  show ?case
  proof (cases st)
    case Running
    with stp Cons.IH[OF st(2)] show ?thesis by simp
  next
    case (Returned oc)
    with stp st show ?thesis by simp
  next
    case Panicked
    with st show ?thesis by simp
  qed
qed

lemma signal_only_on_silence:
  assumes "signals (snd (step e s)) > signals s"
  shows "\<exists>now. e = Tick now \<and> agentSpeaking s \<and> \<not> greetingComplete s
               \<and> now - lastAudioTime s > silenceThreshold"
proof (cases e)
  case (Recv m now wr)
  with assms show ?thesis
    by (cases m) (auto split: sum.splits option.splits if_splits)
next
  case (Tick now)
  with assms show ?thesis
    by (auto simp: onTick_def closeSendQuestion_def Let_def split: if_splits prod.splits)
qed (use assms in \<open>auto split: if_splits\<close>)


lemma DecodeString_AAAA: "DecodeString ''AAAA'' = Inr [CHR 0x00, CHR 0x00, CHR 0x00]"
  by code_simp

lemma ticks_after_greeting:
  "greetingComplete s \<Longrightarrow> \<not> questionSent s \<Longrightarrow> listenForResponses s (map Tick ts) = (Running, s)"
  by (induction ts) (simp_all add: onTick_def Let_def)

lemma ticks_greeting:
  assumes "agentSpeaking s" "\<not> greetingComplete s" "\<not> questionSent s" "\<not> sendQuestionClosed s"
  shows "fst (listenForResponses s (map Tick ts)) = Running
       \<and> signals (snd (listenForResponses s (map Tick ts)))
           = signals s + (if \<exists>t \<in> set ts. t - lastAudioTime s > silenceThreshold then 1 else 0)"
proof (induction ts)
  case Nil show ?case by simp
next
  case (Cons t ts)
  show ?case
  proof (cases "t - lastAudioTime s > silenceThreshold")
    case True
    let ?s' = "s\<lparr>greetingComplete := True, sendQuestionClosed := True,
                    signals := Suc (signals s), agentSpeaking := False\<rparr>"
    from True assms have "step (Tick t) s = (Running, ?s')"
      by (simp add: onTick_def closeSendQuestion_def Let_def)
    moreover have "listenForResponses ?s' (map Tick ts) = (Running, ?s')"
      using assms by (intro ticks_after_greeting) simp_all
    ultimately show ?thesis using True by simp
  next
    case False
    with assms have "step (Tick t) s = (Running, s)"
      by (simp add: onTick_def Let_def)
    with Cons False show ?thesis by simp
  qed
qed

lemma scripted_greeting:
  "fst (listenForResponses (initialTurn 0)
          ([Recv agentMedia 0 None, Recv agentMedia (500 * Millisecond) None] @ map Tick ts)) = Running
   \<and> signals (snd (listenForResponses (initialTurn 0)
          ([Recv agentMedia 0 None, Recv agentMedia (500 * Millisecond) None] @ map Tick ts)))
       = (if \<exists>t \<in> set ts. t > 2500 * Millisecond then 1 else 0)"
proof -
  let ?s2 = speaking
  have "listenForResponses (initialTurn 0)
          ([Recv agentMedia 0 None, Recv agentMedia (500 * Millisecond) None] @ map Tick ts)
        = listenForResponses ?s2 (map Tick ts)"
    by (simp add: agentMedia_def DecodeString_AAAA initialTurn_def speaking_def)
  moreover have "fst (listenForResponses ?s2 (map Tick ts)) = Running
       \<and> signals (snd (listenForResponses ?s2 (map Tick ts)))
           = signals ?s2 + (if \<exists>t \<in> set ts. t - lastAudioTime ?s2 > silenceThreshold then 1 else 0)"
    by (rule ticks_greeting) (simp_all add: speaking_def)
  ultimately show ?thesis
    by (simp add: speaking_def silenceThreshold_def Second_def Millisecond_def)
qed

text \<open>
  C6. In every execution of \<^verbatim>\<open>listenForResponses\<close> the greeting-complete signal (the close of
  \<^verbatim>\<open>sendQuestion\<close>) fires at most once, and the close never panics. An iteration fires it
  only on a timer tick at which the agent is marked speaking, the greeting is not yet
  complete and the time since the last audio exceeds the 2-second threshold. On the
  scripted input (agent audio at 0 and at 0.5 s, then timer ticks only) the function keeps
  running and the signal has fired exactly once if some tick came later than 2.5 s, that is
  after more than 2 s of silence, and not at all otherwise.
\<close>

theorem greeting_signal_once:
  "signals (snd (listenForResponses (initialTurn t0) es)) \<le> 1
   \<and> fst (listenForResponses (initialTurn t0) es) \<noteq> Panicked
   \<and> (signals s < signals (snd (step e s)) \<longrightarrow>
        (\<exists>now. e = Tick now \<and> agentSpeaking s \<and> \<not> greetingComplete s
               \<and> silenceThreshold < now - lastAudioTime s))
   \<and> fst (listenForResponses (initialTurn 0)
          ([Recv agentMedia 0 None, Recv agentMedia (500 * Millisecond) None] @ map Tick ts)) = Running
   \<and> signals (snd (listenForResponses (initialTurn 0)
          ([Recv agentMedia 0 None, Recv agentMedia (500 * Millisecond) None] @ map Tick ts)))
       = (if \<exists>t \<in> set ts. 2500 * Millisecond < t then 1 else 0)"
proof -
  from listen_inv[OF turnInv_initial, of t0 es]
  have "signals (snd (listenForResponses (initialTurn t0) es)) \<le> 1"
    and "fst (listenForResponses (initialTurn t0) es) \<noteq> Panicked"
    by (simp_all add: turnInv_def split: if_splits)
  with signal_only_on_silence[of s e] scripted_greeting[of ts] show ?thesis by blast
qed

theorem greeting_signal_once_witness:
  "signals speaking < signals (snd (step (Tick (2600 * Millisecond)) speaking))
   \<and> agentSpeaking speaking \<and> \<not> greetingComplete speaking
   \<and> silenceThreshold < 2600 * Millisecond - lastAudioTime speaking
   \<and> signals (snd (listenForResponses (initialTurn 0)
        ([Recv agentMedia 0 None, Recv agentMedia (500 * Millisecond) None]
         @ map Tick [600 * Millisecond, 1500 * Millisecond, 2500 * Millisecond]))) = 0
   \<and> signals (snd (listenForResponses (initialTurn 0)
        ([Recv agentMedia 0 None, Recv agentMedia (500 * Millisecond) None]
         @ map Tick [600 * Millisecond, 1500 * Millisecond, 2500 * Millisecond,
                     2600 * Millisecond, 2700 * Millisecond, 5000 * Millisecond]))) = 1"
  using greeting_signal_once[of 0 "[]" speaking "Tick (2600 * Millisecond)"
          "[600 * Millisecond, 1500 * Millisecond, 2500 * Millisecond]"]
        greeting_signal_once[of 0 "[]" speaking "Tick (2600 * Millisecond)"
          "[600 * Millisecond, 1500 * Millisecond, 2500 * Millisecond,
            2600 * Millisecond, 2700 * Millisecond, 5000 * Millisecond]"]
  by (simp add: speaking_def onTick_def closeSendQuestion_def Let_def silenceThreshold_def
        Second_def Millisecond_def)

lemma quiet_step:
  assumes "awaiting sent s" "quiet e"
  shows "(fst (step e s) = Running \<and> awaiting sent (snd (step e s)))
       \<or> fst (step e s) = Returned NoResponse"
proof (cases e)
  case (Recv m now wr)
  with assms show ?thesis by (cases m) (simp_all add: awaiting_def)
next
  case (Tick now)
  with assms show ?thesis by (auto simp: awaiting_def onTick_def Let_def)
qed (use assms in \<open>auto simp: awaiting_def\<close>)

lemma quiet_run:
  assumes "awaiting sent s" "\<forall>e \<in> set es. quiet e" "now - sent > responseTimeout"
  shows "fst (listenForResponses s (es @ [Tick now])) = Returned NoResponse"
  using assms(1,2)
proof (induction es arbitrary: s)
  case Nil
  then show ?case using assms(3) by (simp add: awaiting_def onTick_def Let_def)
next
  case (Cons e es)
  obtain st s' where stp: "step e s = (st, s')" by (cases "step e s")
  from Cons.prems have "quiet e" by simp
  from quiet_step[OF Cons.prems(1) this] stp
  consider "st = Running" "awaiting sent s'" | "st = Returned NoResponse" by auto
  then show ?case
  proof cases
    case 1
    with Cons stp show ?thesis by simp
  next
    case 2
    with stp show ?thesis by simp
  qed
qed

lemma noMedia_step:
  assumes "awaiting sent s" "noMedia e"
  shows "fst (step e s) \<noteq> Returned ResponseComplete
       \<and> (fst (step e s) = Running \<longrightarrow> awaiting sent (snd (step e s)))"
proof (cases e)
  case (Recv m now wr)
  with assms show ?thesis by (cases m) (simp_all add: awaiting_def)
next
  case (Tick now)
  with assms show ?thesis by (auto simp: awaiting_def onTick_def Let_def)
qed (use assms in \<open>auto simp: awaiting_def\<close>)

lemma noMedia_run:
  assumes "awaiting sent s" "\<forall>e \<in> set es. noMedia e"
  shows "fst (listenForResponses s es) \<noteq> Returned ResponseComplete"
  using assms
proof (induction es arbitrary: s)
  case Nil then show ?case by simp
next
  case (Cons e es)
  obtain st s' where stp: "step e s = (st, s')" by (cases "step e s")
  from Cons.prems have "noMedia e" by simp
  from noMedia_step[OF Cons.prems(1) this] stp
  have a: "st \<noteq> Returned ResponseComplete" "st = Running \<longrightarrow> awaiting sent s'" by auto
  show ?case
  proof (cases st)
    case Running
    with a Cons stp show ?thesis by simp
  next
    case (Returned oc)
    with a stp show ?thesis by simp
  next
    case Panicked
    with stp show ?thesis by simp
  qed
qed

text \<open>
  C7. From a state in which the greeting is complete, let the question-sent signal fire at
  \<open>sent\<close>, and let no MediaOutput message arrive afterwards. Then the function never ends
  with the response-complete outcome. If moreover only timer ticks and messages follow
  (the context is not done and the mailbox is not closed), the function returns, at the
  latest at the first tick that reads a clock more than 10 seconds past \<open>sent\<close>, with the
  no-response outcome, and what it returns to its caller is a nil error.
\<close>

theorem response_timeout:
  assumes "greetingComplete s" and "questionCompleteArmed s" and "\<not> questionSent s"
    and "\<forall>e \<in> set es. noMedia e"
  shows "fst (listenForResponses s (QuestionComplete sent # es)) \<noteq> Returned ResponseComplete
       \<and> ((\<forall>e \<in> set es. quiet e) \<and> responseTimeout < now - sent \<longrightarrow>
            fst (listenForResponses s (QuestionComplete sent # es @ [Tick now]))
              = Returned NoResponse
            \<and> returned NoResponse = None)"
proof -
  let ?s1 = "s\<lparr>questionSent := True, agentSpeaking := False, lastAudioTime := sent,
               questionCompleteArmed := False\<rparr>"
  from assms(1-3) have stp: "step (QuestionComplete sent) s = (Running, ?s1)" by simp
  from assms(1) have aw: "awaiting sent ?s1" by (simp add: awaiting_def)
  from noMedia_run[OF aw assms(4)] stp
  have 1: "fst (listenForResponses s (QuestionComplete sent # es)) \<noteq> Returned ResponseComplete"
    by simp
  have 2: "(\<forall>e \<in> set es. quiet e) \<and> responseTimeout < now - sent \<longrightarrow>
            fst (listenForResponses s (QuestionComplete sent # es @ [Tick now]))
              = Returned NoResponse
            \<and> returned NoResponse = None"
  proof
    assume h: "(\<forall>e \<in> set es. quiet e) \<and> responseTimeout < now - sent"
    then have q: "\<forall>e \<in> set es. quiet e" and t: "now - sent > responseTimeout" by auto
    from quiet_run[OF aw q t] stp
    show "fst (listenForResponses s (QuestionComplete sent # es @ [Tick now]))
              = Returned NoResponse
            \<and> returned NoResponse = None" by simp
  qed
  from 1 2 show ?thesis by blast
qed

theorem response_timeout_witness:
  "greetingComplete greeted \<and> questionCompleteArmed greeted \<and> \<not> questionSent greeted
   \<and> noMedia (Tick (4 * Second)) \<and> quiet (Tick (4 * Second))
   \<and> noMedia (Recv clearMsg (5 * Second) None) \<and> quiet (Recv clearMsg (5 * Second) None)
   \<and> noMedia (Tick (13 * Second)) \<and> quiet (Tick (13 * Second))
   \<and> responseTimeout < 13100 * Millisecond - 3 * Second
   \<and> fst (listenForResponses greeted
        [QuestionComplete (3 * Second), Tick (4 * Second), Recv clearMsg (5 * Second) None,
         Tick (13 * Second)]) = Running
   \<and> fst (listenForResponses greeted
        [QuestionComplete (3 * Second), Tick (4 * Second), Recv clearMsg (5 * Second) None,
         Tick (13 * Second), Tick (13100 * Millisecond)]) = Returned NoResponse"
  using response_timeout[of greeted
          "[Tick (4 * Second), Recv clearMsg (5 * Second) None, Tick (13 * Second)]"
          "3 * Second" "13100 * Millisecond"]
  by (simp add: greeted_def clearMsg_def responseTimeout_def Second_def Millisecond_def
        onTick_def Let_def)

section \<open>Properties of the session\<close>

lemma perform_sessInv:
  assumes inv: "sessInv s" and p: "perform a s = Some s'"
  shows "sessInv s'"
proof (cases a)
  case ReaderSelect
  with p have "reader s = RSelect"
    and "s' = (if cancelled s then readerReturns s else s\<lparr>reader := RRead\<rparr>)"
    by (auto split: if_splits)
  with inv show ?thesis by (auto simp: sessInv_def readerReturns_def)
next
  case (ReaderRead r)
  with p have r: "reader s = RRead" by (simp split: if_splits)
  show ?thesis
  proof (cases r)
    case (Inl err)
    with p ReaderRead r have "s' = readerReturns s" by simp
    with inv r show ?thesis by (auto simp: sessInv_def readerReturns_def)
  next
    case (Inr payload)
    show ?thesis
    proof (cases "UnmarshalMessage payload")
      case (Inl err)
      with p ReaderRead r Inr have "s' = s\<lparr>reader := RSelect\<rparr>" by simp
      with inv r show ?thesis by (auto simp: sessInv_def)
    next
      case (Inr m)
      with p ReaderRead r \<open>r = Inr payload\<close> have "s' = s\<lparr>reader := RQueue m\<rparr>" by simp
      with inv r show ?thesis by (auto simp: sessInv_def)
    qed
  qed
next
  case ReaderQueue
  with p obtain m where "reader s = RQueue m" "s' = s\<lparr>readCh := readCh s @ [m], reader := RSelect\<rparr>"
    by (cases "reader s") (auto split: if_splits)
  with inv show ?thesis by (auto simp: sessInv_def)
next
  case ReaderAbandon
  with p obtain m where "reader s = RQueue m" "s' = readerReturns s"
    by (cases "reader s") (auto split: if_splits)
  with inv show ?thesis by (auto simp: sessInv_def readerReturns_def)
next
  case PingTick
  with p have "pinger s = PSelect" "s' = s\<lparr>pinger := PPing\<rparr>" by (auto split: if_splits)
  with inv show ?thesis by (auto simp: sessInv_def)
next
  case (PingReturn err)
  with p have "pinger s = PPing" "s' = s\<lparr>pings := Suc (pings s), pinger := PSelect\<rparr>"
    by (auto split: if_splits)
  with inv show ?thesis by (auto simp: sessInv_def)
next
  case PingDone
  with p have "pinger s = PSelect" "s' = pingerReturns s" by (auto split: if_splits)
  with inv show ?thesis by (auto simp: sessInv_def pingerReturns_def)
next
  case CloseCancel
  with p have "closer s = CNotCalled" "s' = s\<lparr>cancelled := True, closer := CWait\<rparr>"
    by (auto split: if_splits)
  with inv show ?thesis by (auto simp: sessInv_def)
next
  case CloseWait
  with p have "closer s = CWait" "wg s = 0" "s' = s\<lparr>closer := CConnClose\<rparr>"
    by (auto split: if_splits)
  with inv show ?thesis by (auto simp: sessInv_def)
next
  case (CloseConn err)
  with p have "closer s = CConnClose"
    "s' = s\<lparr>closeStatus := Some (StatusNormalClosure, []), closer := CReturned err\<rparr>"
    by (auto split: if_splits)
  with inv show ?thesis by (auto simp: sessInv_def)
next
  case Receive
  with p obtain m ms where "s' = s\<lparr>readCh := ms, delivered := delivered s @ [m]\<rparr>"
    by (cases "readCh s") auto
  with inv show ?thesis by (auto simp: sessInv_def)
qed

lemma sessInv_newSession: "sessInv (newSession sid)"
  by (simp add: sessInv_def newSession_def)

lemma exec_sessInv: "sessInv s \<Longrightarrow> exec as s = Some s' \<Longrightarrow> sessInv s'"
proof (induction as arbitrary: s)
  case Nil then show ?case by simp
next
  case (Cons a as)
  then show ?case by (auto split: option.splits dest: perform_sessInv)
qed

lemma perform_exited:
  assumes "reader s = RExited" "cancelled s" "perform a s = Some s'"
  shows "reader s' = RExited \<and> cancelled s' \<and> pushed s' = pushed s"
proof (cases a)
  case Receive
  with assms show ?thesis by (cases "readCh s") (auto simp: pushed_def)
qed (use assms in \<open>auto simp: pushed_def pingerReturns_def split: if_splits\<close>)

lemma exec_exited:
  "reader s = RExited \<Longrightarrow> cancelled s \<Longrightarrow> exec as s = Some s'
   \<Longrightarrow> reader s' = RExited \<and> cancelled s' \<and> pushed s' = pushed s"
proof (induction as arbitrary: s)
  case Nil then show ?case by simp
next
  case (Cons a as)
  from Cons.prems obtain s1 where s1: "perform a s = Some s1" "exec as s1 = Some s'"
    by (auto split: option.splits)
  from perform_exited[OF Cons.prems(1,2) s1(1)]
  have "reader s1 = RExited" "cancelled s1" "pushed s1 = pushed s" by auto
  with Cons.IH[OF _ _ s1(2)] show ?case by simp
qed

text \<open>
  C9. In every state the session reaches from \<^verbatim>\<open>newSession\<close>, under every interleaving of
  its threads: if \<^verbatim>\<open>s.wg.Wait()\<close> has returned in \<^verbatim>\<open>Close\<close>, the context is cancelled and both
  loops have returned; the connection has been closed only if \<^verbatim>\<open>Close\<close> has got that far, and
  then with the normal-closure status; and once \<^verbatim>\<open>Close\<close> has returned, whatever the threads
  do afterwards, nothing more is pushed to the mailbox.
\<close>

theorem close_is_barrier:
  assumes "exec as (newSession sid) = Some s"
  shows "(waitReturned (closer s) \<longrightarrow> cancelled s \<and> reader s = RExited \<and> pinger s = PExited)
       \<and> (closeStatus s \<noteq> None \<longrightarrow>
            closeReturned (closer s) \<and> closeStatus s = Some (StatusNormalClosure, []))
       \<and> (closeReturned (closer s) \<longrightarrow>
            closeStatus s = Some (StatusNormalClosure, [])
            \<and> (\<forall>bs s'. exec bs s = Some s' \<longrightarrow> pushed s' = pushed s))"
proof -
  from exec_sessInv[OF sessInv_newSession assms] have inv: "sessInv s" .
  have w: "waitReturned (closer s) \<longrightarrow> cancelled s \<and> reader s = RExited \<and> pinger s = PExited"
  proof
    assume wr: "waitReturned (closer s)"
    with inv have "readerLive (reader s) + pingerLive (pinger s) = 0" "cancelled s"
      by (auto simp: sessInv_def)
    then show "cancelled s \<and> reader s = RExited \<and> pinger s = PExited"
      by (cases "reader s"; cases "pinger s") simp_all
  qed
  have c: "closeStatus s \<noteq> None \<longrightarrow>
            closeReturned (closer s) \<and> closeStatus s = Some (StatusNormalClosure, [])"
    using inv by (cases "closer s") (simp_all add: sessInv_def)
  have r: "closeReturned (closer s) \<longrightarrow>
            closeStatus s = Some (StatusNormalClosure, [])
            \<and> (\<forall>bs s'. exec bs s = Some s' \<longrightarrow> pushed s' = pushed s)"
  proof
    assume cr: "closeReturned (closer s)"
    then have "waitReturned (closer s)" by (cases "closer s") simp_all
    with w have ex: "reader s = RExited" "cancelled s" by auto
    from cr inv have "closeStatus s = Some (StatusNormalClosure, [])"
      by (cases "closer s") (simp_all add: sessInv_def)
    moreover have "\<forall>bs s'. exec bs s = Some s' \<longrightarrow> pushed s' = pushed s"
    proof (intro allI impI)
      fix bs s' assume "exec bs s = Some s'"
      from exec_exited[OF ex this] show "pushed s' = pushed s" by simp
    qed
    ultimately show "closeStatus s = Some (StatusNormalClosure, [])
            \<and> (\<forall>bs s'. exec bs s = Some s' \<longrightarrow> pushed s' = pushed s)" by blast
  qed
  from w c r show ?thesis by blast
qed


lemma perform_readInv:
  assumes inv: "readInv fs s" and p: "perform a s = Some s'"
  shows "readInv (fs @ decodedFrames [a]) s'"
proof (cases a)
  case ReaderSelect
  with p have "reader s = RSelect"
    and "s' = (if cancelled s then readerReturns s else s\<lparr>reader := RRead\<rparr>)"
    by (auto split: if_splits)
  with inv ReaderSelect show ?thesis by (auto simp: readInv_def readerReturns_def pushed_def)
next
  case (ReaderRead r)
  with p have r: "reader s = RRead" by (simp split: if_splits)
  show ?thesis
  proof (cases r)
    case (Inl err)
    with p ReaderRead r have "s' = readerReturns s" by simp
    with inv r ReaderRead Inl show ?thesis by (auto simp: readInv_def readerReturns_def pushed_def)
  next
    case (Inr payload)
    show ?thesis
    proof (cases "UnmarshalMessage payload")
      case (Inl err)
      with p ReaderRead r Inr have "s' = s\<lparr>reader := RSelect\<rparr>" by simp
      with inv r ReaderRead Inr Inl show ?thesis by (auto simp: readInv_def pushed_def)
    next
      case (Inr m)
      with p ReaderRead r \<open>r = Inr payload\<close> have "s' = s\<lparr>reader := RQueue m\<rparr>" by simp
      with inv r ReaderRead \<open>r = Inr payload\<close> Inr show ?thesis
        by (auto simp: readInv_def pushed_def)
    qed
  qed
next
  case ReaderQueue
  with p obtain m where "reader s = RQueue m" "s' = s\<lparr>readCh := readCh s @ [m], reader := RSelect\<rparr>"
    by (cases "reader s") (auto split: if_splits)
  with inv ReaderQueue show ?thesis by (auto simp: readInv_def pushed_def)
next
  case ReaderAbandon
  with p obtain m where "reader s = RQueue m" "s' = readerReturns s"
    by (cases "reader s") (auto split: if_splits)
  with inv ReaderAbandon show ?thesis by (auto simp: readInv_def readerReturns_def pushed_def)
next
  case PingTick
  with p have "s' = s\<lparr>pinger := PPing\<rparr>" by (auto split: if_splits)
  with inv PingTick show ?thesis by (auto simp: readInv_def pushed_def)
next
  case (PingReturn err)
  with p have "s' = s\<lparr>pings := Suc (pings s), pinger := PSelect\<rparr>"
    by (auto split: if_splits)
  with inv PingReturn show ?thesis by (auto simp: readInv_def pushed_def)
next
  case PingDone
  with p have "s' = pingerReturns s" by (auto split: if_splits)
  with inv PingDone show ?thesis by (auto simp: readInv_def pingerReturns_def pushed_def)
next
  case CloseCancel
  with p have "s' = s\<lparr>cancelled := True, closer := CWait\<rparr>"
    by (auto split: if_splits)
  with inv CloseCancel show ?thesis by (auto simp: readInv_def pushed_def)
next
  case CloseWait
  with p have "s' = s\<lparr>closer := CConnClose\<rparr>"
    by (auto split: if_splits)
  with inv CloseWait show ?thesis by (auto simp: readInv_def pushed_def)
next
  case (CloseConn err)
  with p have
    "s' = s\<lparr>closeStatus := Some (StatusNormalClosure, []), closer := CReturned err\<rparr>"
    by (auto split: if_splits)
  with inv CloseConn show ?thesis by (auto simp: readInv_def pushed_def)
next
  case Receive
  with p obtain m ms where "readCh s = m # ms" "s' = s\<lparr>readCh := ms, delivered := delivered s @ [m]\<rparr>"
    by (cases "readCh s") auto
  with inv Receive show ?thesis by (auto simp: readInv_def pushed_def)
qed

lemma decodedFrames_Cons: "decodedFrames (a # as) = decodedFrames [a] @ decodedFrames as"
  by (induction "a # as" rule: decodedFrames.induct) (auto split: sum.splits)

lemma exec_readInv:
  "readInv fs s \<Longrightarrow> exec as s = Some s' \<Longrightarrow> readInv (fs @ decodedFrames as) s'"
proof (induction as arbitrary: fs s)
  case Nil then show ?case by simp
next
  case (Cons a as)
  from Cons.prems obtain s1 where s1: "perform a s = Some s1" "exec as s1 = Some s'"
    by (auto split: option.splits)
  from perform_readInv[OF Cons.prems(1) s1(1)] have "readInv (fs @ decodedFrames [a]) s1" .
  from Cons.IH[OF this s1(2)] show ?case
    by (subst decodedFrames_Cons) simp
qed

lemma perform_readFailed:
  "readFailed a \<Longrightarrow> perform a s = Some s' \<Longrightarrow> reader s' = RExited \<and> cancelled s'"
  by (cases a rule: readFailed.cases) (auto simp: readerReturns_def split: if_splits)

lemma exec_append:
  "exec (xs @ ys) t = (case exec xs t of None \<Rightarrow> None | Some t' \<Rightarrow> exec ys t')"
  by (induction xs arbitrary: t) (auto split: option.splits)

lemma exec_readFailed:
  assumes "exec as s = Some s'" "\<exists>a \<in> set as. readFailed a"
  shows "reader s' = RExited \<and> cancelled s'"
proof -
  from assms(2) obtain a where a: "a \<in> set as" "readFailed a" by blast
  from split_list[OF a(1)] obtain pre post where "as = pre @ a # post" by blast
  with a have as: "as = pre @ a # post" "readFailed a" by simp_all
  from assms(1) as(1) obtain s1 where s1: "exec pre s = Some s1" "exec (a # post) s1 = Some s'"
    by (auto simp: exec_append split: option.splits)
  from s1(2) obtain s2 where s2: "perform a s1 = Some s2" "exec post s2 = Some s'"
    by (auto split: option.splits)
  from perform_readFailed[OF as(2) s2(1)] have "reader s2 = RExited" "cancelled s2" by auto
  from exec_exited[OF this s2(2)] show ?thesis by simp
qed

text \<open>
  C8. In every state the session reaches from \<^verbatim>\<open>newSession\<close>: the messages pushed to the
  mailbox are, in order, the messages that decode from the frames read so far, frames that
  do not decode being skipped; at most the last decoded message is missing (in hand, or
  dropped by a reader that saw the cancellation), and none is missing while the reader is
  at the top of its loop or reading. If a read has failed, the reader has returned and the
  context is cancelled, and both stay so, with nothing more pushed.
\<close>

theorem reader_preserves_order:
  assumes "exec as (newSession sid) = Some s"
  shows "prefix (pushed s) (decodedFrames as)
       \<and> length (decodedFrames as) \<le> Suc (length (pushed s))
       \<and> (reader s = RSelect \<or> reader s = RRead \<longrightarrow> pushed s = decodedFrames as)
       \<and> ((\<exists>a \<in> set as. readFailed a) \<longrightarrow>
            reader s = RExited \<and> cancelled s
            \<and> (\<forall>bs s'. exec bs s = Some s' \<longrightarrow>
                   reader s' = RExited \<and> cancelled s' \<and> pushed s' = pushed s))"
proof -
  have "readInv [] (newSession sid)" by (simp add: readInv_def newSession_def pushed_def)
  from exec_readInv[OF this assms] have inv: "readInv (decodedFrames as) s" by simp
  have 1: "prefix (pushed s) (decodedFrames as) \<and> length (decodedFrames as) \<le> Suc (length (pushed s))"
    using inv by (cases "reader s") (auto simp: readInv_def)
  have 2: "reader s = RSelect \<or> reader s = RRead \<longrightarrow> pushed s = decodedFrames as"
    using inv by (auto simp: readInv_def)
  have 3: "(\<exists>a \<in> set as. readFailed a) \<longrightarrow>
            reader s = RExited \<and> cancelled s
            \<and> (\<forall>bs s'. exec bs s = Some s' \<longrightarrow>
                   reader s' = RExited \<and> cancelled s' \<and> pushed s' = pushed s)"
  proof
    assume "\<exists>a \<in> set as. readFailed a"
    from exec_readFailed[OF assms this] have ex: "reader s = RExited" "cancelled s" by auto
    have "\<forall>bs s'. exec bs s = Some s' \<longrightarrow>
                   reader s' = RExited \<and> cancelled s' \<and> pushed s' = pushed s"
    proof (intro allI impI)
      fix bs s' assume "exec bs s = Some s'"
      from exec_exited[OF ex this]
      show "reader s' = RExited \<and> cancelled s' \<and> pushed s' = pushed s" .
    qed
    with ex show "reader s = RExited \<and> cancelled s
            \<and> (\<forall>bs s'. exec bs s = Some s' \<longrightarrow>
                   reader s' = RExited \<and> cancelled s' \<and> pushed s' = pushed s)" by simp
  qed
  from 1 2 3 show ?thesis by blast
qed


lemma frames:
  "UnmarshalMessage clearFrame = Inr clearMsg"
  "UnmarshalMessage dtmfFrame = Inr dtmfMsg"
  "UnmarshalMessage startFrame = Inl ErrUnknownMessageType"
  "UnmarshalMessage None = Inl SyntaxError"
  by (simp_all add: decode_defs MessageType_defs clearFrame_def dtmfFrame_def startFrame_def
        clearMsg_def dtmfMsg_def storeClear_def storeDTMF_def zeroClear_def zeroDTMF_def)

theorem close_is_barrier_witness:
  "exec closeSchedule (newSession ''s1'') = Some afterClose
   \<and> waitReturned (closer afterClose) \<and> closeReturned (closer afterClose)
   \<and> closeStatus afterClose \<noteq> None
   \<and> cancelled afterClose \<and> reader afterClose = RExited \<and> pinger afterClose = PExited
   \<and> closeStatus afterClose = Some (StatusNormalClosure, [])
   \<and> exec [Receive] afterClose = Some (afterClose\<lparr>readCh := [], delivered := [clearMsg]\<rparr>)
   \<and> pushed (afterClose\<lparr>readCh := [], delivered := [clearMsg]\<rparr>) = pushed afterClose"
  using close_is_barrier[of closeSchedule "''s1''" afterClose]
  by (simp add: closeSchedule_def newSession_def afterClose_def frames readChCapacity_def
        readerReturns_def pingerReturns_def pushed_def)

theorem reader_preserves_order_witness:
  "exec readSchedule (newSession ''s1'') = Some afterReads
   \<and> reader afterReads = RRead
   \<and> decodedFrames readSchedule = [clearMsg, dtmfMsg]
   \<and> pushed afterReads = [clearMsg, dtmfMsg]
   \<and> exec (readSchedule @ [ReaderRead (Inl (TransportError ''EOF''))]) (newSession ''s1'')
       = Some afterReadError
   \<and> readFailed (ReaderRead (Inl (TransportError ''EOF'')))
   \<and> reader afterReadError = RExited \<and> cancelled afterReadError
   \<and> prefix (pushed afterReadError)
        (decodedFrames (readSchedule @ [ReaderRead (Inl (TransportError ''EOF''))]))
   \<and> exec [PingDone] afterReadError = Some (pingerReturns afterReadError)
   \<and> pushed (pingerReturns afterReadError) = pushed afterReadError"
  using reader_preserves_order[of readSchedule "''s1''" afterReads]
        reader_preserves_order[of "readSchedule @ [ReaderRead (Inl (TransportError ''EOF''))]"
          "''s1''" afterReadError]
  by (simp add: readSchedule_def newSession_def afterReads_def afterReadError_def frames
        readChCapacity_def readerReturns_def pingerReturns_def pushed_def)

text \<open>
  C2 on the code. After \<^verbatim>\<open>Close\<close> has returned, \<^verbatim>\<open>Send\<close> still marshals the message and hands
  it to \<^verbatim>\<open>conn.Write\<close>, and returns what the write on the closed connection returns: a
  transport error, not \<^verbatim>\<open>ErrSessionClosed\<close>.
\<close>

theorem send_after_close:
  "exec [CloseCancel, ReaderSelect, PingDone, CloseWait, CloseConn None] (newSession ''s1'')
     = Some closedSession
   \<and> closer closedSession = CReturned None
   \<and> Send closedSession clearMsg (Some (TransportError ''use of closed network connection''))
       = (Some (TransportError ''use of closed network connection''),
          closedSession\<lparr>written := [JObj [(''event'', JStr ''clear''), (''stream_id'', JStr ''s1'')]]\<rparr>)
   \<and> fst (Send closedSession clearMsg (Some (TransportError ''use of closed network connection'')))
       \<noteq> Some ErrSessionClosed"
  by (simp add: newSession_def closedSession_def readerReturns_def pingerReturns_def
        Send_def clearMsg_def encodeString_def)

section \<open>Properties of the handshake client\<close>

text \<open>
  C1 on the code. When the first message is not an Ack, and when the context is done first,
  \<^verbatim>\<open>NewSession\<close> returns an error without calling \<^verbatim>\<open>Close\<close> on the session it created; only the
  path on which sending the start message fails calls it.
\<close>

theorem handshake_failure_without_close:
  "NewSession theClient ''agent'' None None ''s1'' None (FirstMessage agentMedia)
     = (Inl (Errorf ''expected ack message, but got media_output''),
        [DialCall ''wss://agents.cartesia.ai/agents/stream/agent'', NewSessionCall ''s1'',
         SendCall (startMessage theClient ''s1'' None)])
   \<and> NewSession theClient ''agent'' None None ''s1'' None (ContextDone DeadlineExceeded)
     = (Inl (Wrapped ''handshake timed out'' DeadlineExceeded),
        [DialCall ''wss://agents.cartesia.ai/agents/stream/agent'', NewSessionCall ''s1'',
         SendCall (startMessage theClient ''s1'' None)])
   \<and> NewSession theClient ''agent'' None None ''s1'' (Some (TransportError ''broken pipe''))
         (FirstMessage agentMedia)
     = (Inl (TransportError ''broken pipe''),
        [DialCall ''wss://agents.cartesia.ai/agents/stream/agent'', NewSessionCall ''s1'',
         SendCall (startMessage theClient ''s1'' None), CloseCall])"
  by (simp add: NewSession_def theClient_def startMessage_def Send_def encodeMetadata_def
        agentMedia_def MessageType_defs)

end
